theory Spec2Isabelle
  imports Complex_Main "HOL-Library.AList"
begin

section \<open>Pet Empire: game-economy rules\<close>

text \<open>
  The development embeds the rule evaluators of the bot's service layer
  (\<^verbatim>\<open>bot/utils/pet_generator.py\<close>, \<^verbatim>\<open>bot/services/*.py\<close>) over the constants of
  \<^verbatim>\<open>bot/config.py\<close> and the tables of \<^verbatim>\<open>bot/database/models.py\<close>.

  Conventions of the embedding.
  \<^item> Python integers are \<^typ>\<open>int\<close>. Python floats are idealised as \<^typ>\<open>real\<close>; the
    conversion \<^verbatim>\<open>int(x)\<close> of a float is truncation toward zero.
  \<^item> A \<^verbatim>\<open>datetime\<close> is a number of seconds (\<^typ>\<open>int\<close>); one service call reads one
    clock value \<open>now\<close>; a calendar date is the day number \<open>t div 86400\<close>.
  \<^item> Every value drawn from \<^verbatim>\<open>random\<close> is an explicit argument of the function that draws it.
  \<^item> An exception is a value of type \<open>error\<close>; a function that may raise returns a sum.
    Reading an attribute that a class does not declare raises \<^verbatim>\<open>AttributeError\<close>, like any
    other exception. The messages of the raid service, Russian in the source, are given in
    English.
\<close>

subsection \<open>Errors and numeric conversions\<close>

datatype error = ValueError string | KeyError string | AttributeError string | MultipleResultsFound

definition py_int :: "real \<Rightarrow> int" where
  \<comment> \<open>Python's \<^verbatim>\<open>int(x)\<close> on a float: truncation toward zero.\<close>
  "py_int x = (if 0 \<le> x then \<lfloor>x\<rfloor> else \<lceil>x\<rceil>)"

definition py_pow :: "real \<Rightarrow> int \<Rightarrow> real" where
  \<comment> \<open>Python's \<^verbatim>\<open>x ** n\<close> for a float base and an integer exponent.\<close>
  "py_pow x n = (if 0 \<le> n then x ^ nat n else 1 / x ^ nat (- n))"

subsection \<open>Constants of \<^verbatim>\<open>GameConstants\<close>\<close>

record mission_data =
  duration :: int
  base_reward :: int
  exp_reward :: int
  fail_chance :: real

definition MISSION_TYPES :: "(string \<times> mission_data) list" where
  "MISSION_TYPES =
    [(''quick'', \<lparr>duration = 1800, base_reward = 50, exp_reward = 20, fail_chance = 0.05\<rparr>),
     (''medium'', \<lparr>duration = 10800, base_reward = 200, exp_reward = 80, fail_chance = 0.15\<rparr>),
     (''long'', \<lparr>duration = 28800, base_reward = 800, exp_reward = 300, fail_chance = 0.25\<rparr>),
     (''epic'', \<lparr>duration = 43200, base_reward = 2000, exp_reward = 800, fail_chance = 0.30\<rparr>)]"

record trap_data =
  cost :: int
  defense_bonus :: int

definition TRAP_TYPES :: "(string \<times> trap_data) list" where
  "TRAP_TYPES =
    [(''basic_wall'', \<lparr>cost = 100, defense_bonus = 10\<rparr>),
     (''alarm'', \<lparr>cost = 500, defense_bonus = 15\<rparr>),
     (''electric_fence'', \<lparr>cost = 2000, defense_bonus = 25\<rparr>),
     (''laser_grid'', \<lparr>cost = 10000, defense_bonus = 50\<rparr>)]"

definition EXP_PER_LEVEL :: int where
  "EXP_PER_LEVEL = 100"

definition EVOLUTION_LEVELS :: "int list" where
  "EVOLUTION_LEVELS = [10, 25, 50, 75, 100]"

definition RAID_COOLDOWN :: int where
  "RAID_COOLDOWN = 21600"

definition RAID_SHIELD_DURATION :: int where
  "RAID_SHIELD_DURATION = 3600"

definition LOYALTY_STEAL_REDUCTION :: real where
  "LOYALTY_STEAL_REDUCTION = 0.5"

text \<open>
  The integer attributes of the class \<^verbatim>\<open>GameConstants\<close>, by name. The services also read
  \<^verbatim>\<open>GameConstants.MAX_PET_LEVEL\<close> (\<^verbatim>\<open>pet_service.py\<close>, line 96) and
  \<^verbatim>\<open>GameConstants.DAILY_FREE_RAIDS\<close> (\<^verbatim>\<open>raid_service.py\<close>, line 39). The class declares
  neither: \<^verbatim>\<open>config.py\<close> has the two values only as the fields \<^verbatim>\<open>max_pet_level\<close> and
  \<^verbatim>\<open>daily_free_raids\<close> of \<^verbatim>\<open>Settings\<close>, which no service reads. Evaluating either
  expression therefore raises \<^verbatim>\<open>AttributeError\<close>, and the model reads both through the
  lookup below.
\<close>

definition GameConstants_int_attributes :: "(string \<times> int) list" where
  "GameConstants_int_attributes =
    [(''EXP_PER_LEVEL'', EXP_PER_LEVEL),
     (''RAID_COOLDOWN'', RAID_COOLDOWN),
     (''RAID_SHIELD_DURATION'', RAID_SHIELD_DURATION),
     (''BATTLE_PASS_LEVELS'', 50),
     (''BATTLE_PASS_COST'', 400)]"

definition GameConstants_getattr :: "string \<Rightarrow> error + int" where
  \<comment> \<open>\<^verbatim>\<open>GameConstants.name\<close> for a name that is read as an integer.\<close>
  "GameConstants_getattr name =
    (case map_of GameConstants_int_attributes name of
       None \<Rightarrow> Inl (AttributeError name)
     | Some v \<Rightarrow> Inr v)"

subsection \<open>Mission success chance (\<^verbatim>\<open>PetGenerator.calculate_mission_success_chance\<close>)\<close>

definition calculate_mission_success_chance :: "int \<Rightarrow> int \<Rightarrow> string \<Rightarrow> error + real" where
  "calculate_mission_success_chance pet_stamina pet_level mission_type =
    (case map_of MISSION_TYPES mission_type of
       None \<Rightarrow> Inl (KeyError mission_type)
     | Some md \<Rightarrow>
         let base_fail_chance = fail_chance md;
             stamina_modifier = (if pet_stamina \<ge> 50 then 1 else real_of_int pet_stamina / 50);
             level_modifier = 1 - real_of_int pet_level * 0.005;
             level_modifier = max 0.5 level_modifier;
             final_fail_chance = base_fail_chance * level_modifier * (2 - stamina_modifier);
             success_chance = 1 - min final_fail_chance 0.5
         in Inr success_chance)"

definition success_probability_spec :: "real \<Rightarrow> int \<Rightarrow> int \<Rightarrow> real" where
  \<comment> \<open>The formula as the specification words it, for base fail chance \<open>f\<close>, level \<open>L\<close>, stamina \<open>S\<close>.\<close>
  "success_probability_spec f L S =
    1 - min 0.5 (f * max 0.5 (1 - real_of_int L * 0.005)
                   * (2 - (if S \<ge> 50 then 1 else real_of_int S / 50)))"

subsection \<open>Raid win chance (\<^verbatim>\<open>RaidService.execute_raid\<close>, the lines computing \<^verbatim>\<open>win_chance\<close>)\<close>

definition raid_win_chance :: "int \<Rightarrow> int \<Rightarrow> real \<Rightarrow> real" where
  \<comment> \<open>\<open>offset\<close> is the value of \<^verbatim>\<open>random.uniform(-0.15, 0.15)\<close>.\<close>
  "raid_win_chance attack_power defense_power offset =
    (let total_power = attack_power + defense_power;
         win_chance = (if total_power = 0 then 0.5
                       else real_of_int attack_power / real_of_int total_power);
         win_chance = win_chance + offset
     in max 0.1 (min 0.9 win_chance))"

subsection \<open>Pets and levelling (\<^verbatim>\<open>PetGenerator\<close>, \<^verbatim>\<open>PetService.add_exp_to_pet\<close>)\<close>

record pet =
  pet_id :: int
  owner_id :: int
  rarity :: string
  level :: int
  pet_exp :: int
  pet_power :: int
  income_per_hour :: int
  stamina :: int
  loyalty :: int
  is_on_mission :: bool
  is_defending :: bool
  fatigue_until :: "int option"
  evolution_stage :: int
  obtained_from :: string

definition calculate_level_up_requirements :: "int \<Rightarrow> int" where
  "calculate_level_up_requirements current_level =
    py_int (real_of_int EXP_PER_LEVEL * py_pow 1.1 current_level)"

definition can_level_up :: "int \<Rightarrow> int \<Rightarrow> bool" where
  "can_level_up current_exp current_level =
    (let required_exp = calculate_level_up_requirements current_level
     in current_exp \<ge> required_exp)"

definition level_up_step :: "pet \<Rightarrow> pet" where
  \<comment> \<open>The body of the \<^verbatim>\<open>while\<close> loop of \<^verbatim>\<open>add_exp_to_pet\<close>, in the order of its statements.\<close>
  "level_up_step p =
    (let required_exp = calculate_level_up_requirements (level p);
         p = p\<lparr>pet_exp := pet_exp p - required_exp\<rparr>;
         p = p\<lparr>level := level p + 1\<rparr>;
         p = p\<lparr>income_per_hour := py_int (real_of_int (income_per_hour p) * 1.05)\<rparr>;
         p = p\<lparr>pet_power := pet_power p + 2\<rparr>
     in if level p \<in> set EVOLUTION_LEVELS
        then p\<lparr>evolution_stage := evolution_stage p + 1\<rparr> else p)"

text \<open>
  The \<^verbatim>\<open>while\<close> loop of \<^verbatim>\<open>add_exp_to_pet\<close>. Its condition is
  \<^verbatim>\<open>can_level_up(pet.exp, pet.level) and pet.level < GameConstants.MAX_PET_LEVEL\<close>: the
  second operand is evaluated only when the first is true, and evaluating it is the attribute
  lookup. The result is the exception or the number of levels gained, beside the pet object
  as the loop leaves it.
\<close>

function level_up_loop :: "pet \<Rightarrow> int \<Rightarrow> (error + int) \<times> pet" where
  "level_up_loop p levels_gained =
    (if can_level_up (pet_exp p) (level p) then
       (case GameConstants_getattr ''MAX_PET_LEVEL'' of
          Inl e \<Rightarrow> (Inl e, p)
        | Inr max_pet_level \<Rightarrow>
            if level p < max_pet_level
            then level_up_loop (level_up_step p) (levels_gained + 1)
            else (Inr levels_gained, p))
     else (Inr levels_gained, p))"
  by pat_completeness auto
termination
  by (relation "measure (\<lambda>(p, n). case GameConstants_getattr ''MAX_PET_LEVEL'' of
                                     Inl e \<Rightarrow> 0 | Inr m \<Rightarrow> nat (m - level p))")
     (auto simp: level_up_step_def Let_def)

record level_up_info =
  levels_gained :: int
  new_level :: int
  new_power :: int
  new_income :: int
  evolved :: bool

text \<open>
  \<^verbatim>\<open>add_exp_to_pet\<close> mutates the pet object it is given; the second component of the result
  is that object when the function returns or raises. The \<^verbatim>\<open>commit\<close> before the
  \<^verbatim>\<open>return\<close> is reached only when the loop has not raised; callers that hold a session
  (\<open>complete_mission\<close> below) write the object back and commit at that point.
\<close>

definition add_exp_to_pet :: "pet \<Rightarrow> int \<Rightarrow> (error + level_up_info) \<times> pet" where
  "add_exp_to_pet p exp_amount =
    (let p = p\<lparr>pet_exp := pet_exp p + exp_amount\<rparr>
     in case level_up_loop p 0 of
          (Inl e, p) \<Rightarrow> (Inl e, p)
        | (Inr gained, p) \<Rightarrow>
            (Inr \<lparr>levels_gained = gained,
                  new_level = level p,
                  new_power = pet_power p,
                  new_income = income_per_hour p,
                  evolved = (gained > 0 \<and> level p \<in> set EVOLUTION_LEVELS)\<rparr>, p))"

text \<open>
  Concrete pets used to run the levelling code: a pet as \<^verbatim>\<open>PetService.create_pet\<close> stores it
  (level 1, no experience), and two pets at levels 5 and 9.
\<close>

definition example_pet_level1 :: pet where
  "example_pet_level1 =
    \<lparr>pet_id = 3, owner_id = 7, rarity = ''Common'', level = 1, pet_exp = 0, pet_power = 5,
     income_per_hour = 10, stamina = 100, loyalty = 50, is_on_mission = False,
     is_defending = False, fatigue_until = None, evolution_stage = 0, obtained_from = ''egg''\<rparr>"

definition example_pet_level5 :: pet where
  "example_pet_level5 =
    \<lparr>pet_id = 1, owner_id = 7, rarity = ''Common'', level = 5, pet_exp = 0, pet_power = 5,
     income_per_hour = 10, stamina = 100, loyalty = 50, is_on_mission = False,
     is_defending = False, fatigue_until = None, evolution_stage = 0, obtained_from = ''egg''\<rparr>"

definition example_pet_level9 :: pet where
  "example_pet_level9 =
    \<lparr>pet_id = 2, owner_id = 7, rarity = ''Common'', level = 9, pet_exp = 0, pet_power = 21,
     income_per_hour = 14, stamina = 100, loyalty = 50, is_on_mission = False,
     is_defending = False, fatigue_until = None, evolution_stage = 0, obtained_from = ''egg''\<rparr>"

subsection \<open>The tables (\<^verbatim>\<open>bot/database/models.py\<close>) and the session\<close>

text \<open>
  Only the columns that the services read or write are kept; display columns (names, emoji,
  icons, descriptions) are left out. A table is the list of its rows. \<^verbatim>\<open>session.get\<close> finds
  a row by its primary key, and a mutation of a loaded object is a write to the row with the
  same key, so every later load in the same call sees it. A \<^verbatim>\<open>commit\<close> makes the session's
  rows the stored ones. The request middleware (\<^verbatim>\<open>middlewares/database.py\<close>) rolls the
  session back when a handler raises, so for a service called from a handler the store
  returned beside an error is the one of the last commit. The mission sweep
  (\<^verbatim>\<open>check_and_autocomplete_missions\<close>) catches the exceptions of \<^verbatim>\<open>complete_mission\<close>
  itself and goes on with the same session, so for these two functions the session is
  explicit: the committed rows and the rows as the session sees them.
\<close>

record user =
  user_id :: int
  user_exp :: int
  coins :: int
  stars :: int
  pet_slots :: int
  raids_won :: int
  raids_lost :: int
  defenses_won :: int
  defenses_lost :: int
  free_raids_today :: int
  last_raid_reset :: "int option"
  raid_shield_until :: "int option"
  traps :: "(string \<times> int) list"

record mission =
  mission_id :: int
  mission_user_id :: int
  mission_pet_id :: int
  mission_type :: string
  started_at :: int
  complete_at :: int
  reward_coins :: int
  reward_exp :: int
  status :: string

record raid =
  attacker_id :: int
  defender_id :: int
  attacker_power :: int
  defender_power :: int
  result :: string
  stolen_pet_id :: "int option"
  timestamp :: int

record achievement =
  achievement_id :: int
  requirement_type :: string
  requirement_value :: int
  achievement_reward_coins :: int
  achievement_reward_stars :: int

record achievement_progress =
  progress_user_id :: int
  progress_achievement_id :: int
  current_value :: int
  completed :: bool
  completed_at :: "int option"

record store =
  users :: "user list"
  pets :: "pet list"
  missions :: "mission list"
  raids :: "raid list"
  achievements :: "achievement list"
  progress_rows :: "achievement_progress list"

definition get_user :: "store \<Rightarrow> int \<Rightarrow> user option" where
  "get_user s uid = find (\<lambda>u. user_id u = uid) (users s)"

definition put_user :: "store \<Rightarrow> user \<Rightarrow> store" where
  "put_user s u = s\<lparr>users := map (\<lambda>x. if user_id x = user_id u then u else x) (users s)\<rparr>"

definition get_pet :: "store \<Rightarrow> int \<Rightarrow> pet option" where
  "get_pet s pid = find (\<lambda>p. pet_id p = pid) (pets s)"

definition put_pet :: "store \<Rightarrow> pet \<Rightarrow> store" where
  "put_pet s p = s\<lparr>pets := map (\<lambda>x. if pet_id x = pet_id p then p else x) (pets s)\<rparr>"

definition get_mission :: "store \<Rightarrow> int \<Rightarrow> mission option" where
  "get_mission s mid = find (\<lambda>m. mission_id m = mid) (missions s)"

definition put_mission :: "store \<Rightarrow> mission \<Rightarrow> store" where
  "put_mission s m =
    s\<lparr>missions := map (\<lambda>x. if mission_id x = mission_id m then m else x) (missions s)\<rparr>"

record session =
  committed :: store
  pending :: store

definition open_session :: "store \<Rightarrow> session" where
  \<comment> \<open>A new session on the stored rows.\<close>
  "open_session s = \<lparr>committed = s, pending = s\<rparr>"

definition commit :: "session \<Rightarrow> session" where
  "commit ss = ss\<lparr>committed := pending ss\<rparr>"

definition fresh_id :: "int list \<Rightarrow> int" where
  \<comment> \<open>The key an autoincrement column gives to the next row.\<close>
  "fresh_id ids = fold max ids 0 + 1"

subsection \<open>Missions (\<^verbatim>\<open>PetGenerator.generate_mission_rewards\<close>, \<^verbatim>\<open>MissionService\<close>)\<close>

definition rarity_bonus :: "(string \<times> real) list" where
  "rarity_bonus =
    [(''Common'', 1.0), (''Uncommon'', 1.2), (''Rare'', 1.5), (''Epic'', 2.0),
     (''Legendary'', 3.0), (''Mythical'', 5.0)]"

definition generate_mission_rewards :: "string \<Rightarrow> int \<Rightarrow> string \<Rightarrow> error + (int \<times> int)" where
  \<comment> \<open>The result is the pair (coins, exp).\<close>
  "generate_mission_rewards mtype pet_level pet_rarity =
    (case map_of MISSION_TYPES mtype of
       None \<Rightarrow> Inl (KeyError mtype)
     | Some md \<Rightarrow>
         let base_coins = base_reward md;
             base_exp = exp_reward md;
             level_multiplier = 1 + real_of_int pet_level * 0.05;
             multiplier = level_multiplier
                          * (case map_of rarity_bonus pet_rarity of None \<Rightarrow> 1.0 | Some b \<Rightarrow> b)
         in Inr (py_int (real_of_int base_coins * multiplier),
                 py_int (real_of_int base_exp * multiplier)))"

definition start_mission :: "store \<Rightarrow> int \<Rightarrow> pet \<Rightarrow> string \<Rightarrow> (error + mission) \<times> store" where
  "start_mission s now p mtype =
    (if is_on_mission p then (Inl (ValueError ''Pet is already on a mission''), s)
     else if is_defending p then (Inl (ValueError ''Pet is currently defending''), s)
     else if (case fatigue_until p of None \<Rightarrow> False | Some f \<Rightarrow> f > now)
       then (Inl (ValueError ''Pet is too tired''), s)
     else case map_of MISSION_TYPES mtype of
       None \<Rightarrow> (Inl (ValueError ''Invalid mission type''), s)
     | Some md \<Rightarrow>
        (case generate_mission_rewards mtype (level p) (rarity p) of
           Inl e \<Rightarrow> (Inl e, s)
         | Inr (r_coins, r_exp) \<Rightarrow>
             let m = \<lparr>mission_id = fresh_id (map mission_id (missions s)),
                      mission_user_id = owner_id p,
                      mission_pet_id = pet_id p,
                      mission_type = mtype,
                      started_at = now,
                      complete_at = now + duration md,
                      reward_coins = r_coins,
                      reward_exp = r_exp,
                      status = ''active''\<rparr>;
                 s = put_pet s (p\<lparr>is_on_mission := True\<rparr>);
                 s = s\<lparr>missions := missions s @ [m]\<rparr>
             in (Inr m, s)))"

datatype level_up_report = Report level_up_info | GainedOnly int

record mission_result =
  success :: bool
  result_coins :: int
  result_exp :: int
  result_level_up_info :: level_up_report

text \<open>
  \<^verbatim>\<open>complete_mission\<close> on an explicit session. On the success branch the user's coins and
  experience are changed first, then \<^verbatim>\<open>add_exp_to_pet\<close> adds the experience to the pet and
  runs the level-up loop. When the loop raises, the exception leaves \<^verbatim>\<open>complete_mission\<close>
  before any \<^verbatim>\<open>commit\<close>: the changes to the user and to the pet's experience stay on the
  session, the mission row has not been touched. When it returns, \<^verbatim>\<open>add_exp_to_pet\<close> has
  committed, the status is written and the final \<^verbatim>\<open>commit\<close> follows.
\<close>

definition complete_mission ::
  "session \<Rightarrow> int \<Rightarrow> real \<Rightarrow> mission \<Rightarrow> (error + mission_result) \<times> session" where
  \<comment> \<open>\<open>draw\<close> is the value of \<^verbatim>\<open>random.random()\<close>.\<close>
  "complete_mission ss now draw m =
    (if status m \<noteq> ''active'' then (Inl (ValueError ''Mission is not active''), ss)
     else if complete_at m > now then (Inl (ValueError ''Mission is not complete yet''), ss)
     else case get_pet (pending ss) (mission_pet_id m) of
       None \<Rightarrow> (Inl (ValueError ''Pet not found''), ss)
     | Some p \<Rightarrow>
        (case calculate_mission_success_chance (stamina p) (level p) (mission_type m) of
           Inl e \<Rightarrow> (Inl e, ss)
         | Inr success_chance \<Rightarrow>
             let success = (draw < success_chance) in
             if success then
               (case get_user (pending ss) (mission_user_id m) of
                  None \<Rightarrow> (Inl (AttributeError ''coins''), ss)
                | Some u \<Rightarrow>
                   let u = u\<lparr>coins := coins u + reward_coins m\<rparr>;
                       u = u\<lparr>user_exp := user_exp u + reward_exp m div 10\<rparr>;
                       ss = ss\<lparr>pending := put_user (pending ss) u\<rparr>
                   in (case add_exp_to_pet p (reward_exp m) of
                         (Inl e, p) \<Rightarrow> (Inl e, ss\<lparr>pending := put_pet (pending ss) p\<rparr>)
                       | (Inr info, p) \<Rightarrow>
                           let ss = commit (ss\<lparr>pending := put_pet (pending ss) p\<rparr>);
                               m = m\<lparr>status := ''completed''\<rparr>;
                               p = p\<lparr>is_on_mission := False\<rparr>;
                               ss = commit (ss\<lparr>pending :=
                                              put_mission (put_pet (pending ss) p) m\<rparr>)
                           in (Inr \<lparr>success = True, result_coins = reward_coins m,
                                    result_exp = reward_exp m,
                                    result_level_up_info = Report info\<rparr>, ss)))
             else
               (let reduced_coins = py_int (real_of_int (reward_coins m) * 0.2) in
                case get_user (pending ss) (mission_user_id m) of
                  None \<Rightarrow> (Inl (AttributeError ''coins''), ss)
                | Some u \<Rightarrow>
                   let u = u\<lparr>coins := coins u + reduced_coins\<rparr>;
                       s = put_user (pending ss) u;
                       p = p\<lparr>fatigue_until := Some (now + 3600)\<rparr>;
                       m = m\<lparr>status := ''failed''\<rparr>;
                       p = p\<lparr>is_on_mission := False\<rparr>;
                       ss = commit (ss\<lparr>pending := put_mission (put_pet s p) m\<rparr>)
                   in (Inr \<lparr>success = False, result_coins = reduced_coins,
                            result_exp = 0, result_level_up_info = GainedOnly 0\<rparr>, ss))))"

definition cancel_mission :: "store \<Rightarrow> int \<Rightarrow> mission \<Rightarrow> bool \<times> store" where
  "cancel_mission s now m =
    (if status m \<noteq> ''active'' then (False, s)
     else
       let s = (case get_pet s (mission_pet_id m) of
                  None \<Rightarrow> s
                | Some p \<Rightarrow> put_pet s (p\<lparr>is_on_mission := False,
                                           fatigue_until := Some (now + 3600)\<rparr>));
           m = m\<lparr>status := ''cancelled''\<rparr>
       in (True, put_mission s m))"

definition instant_complete_mission ::
  "store \<Rightarrow> int \<Rightarrow> mission \<Rightarrow> user \<Rightarrow> (error + int \<times> mission) \<times> store" where
  \<comment> \<open>The result is the pair (cost, mission).\<close>
  "instant_complete_mission s now m u =
    (if status m \<noteq> ''active'' then (Inl (ValueError ''Mission is not active''), s)
     else
       let time_left = complete_at m - now;
           hours_left = real_of_int time_left / 3600;
           cost = max 20 (py_int (hours_left * 10))
       in if stars u < cost then (Inl (ValueError ''Not enough Stars''), s)
          else
            let u = u\<lparr>stars := stars u - cost\<rparr>;
                m = m\<lparr>complete_at := now\<rparr>
            in (Inr (cost, m), put_mission (put_user s u) m))"

definition check_and_autocomplete_missions ::
  "session \<Rightarrow> int \<Rightarrow> (int \<Rightarrow> real) \<Rightarrow> session" where
  \<comment> \<open>\<open>draws mid\<close> is the value \<^verbatim>\<open>random.random()\<close> returns while mission \<open>mid\<close> is resolved.
      An exception of \<^verbatim>\<open>complete_mission\<close> is caught and logged, and the loop goes on with the
      session as the exception left it: nothing is rolled back.\<close>
  "check_and_autocomplete_missions ss now draws =
    (let ready = filter (\<lambda>m. status m = ''active'' \<and> complete_at m \<le> now)
                        (missions (pending ss))
     in fold (\<lambda>m ss. snd (complete_mission ss now (draws (mission_id m)) m)) ready ss)"

definition run_sweep :: "store \<Rightarrow> int \<Rightarrow> (int \<Rightarrow> real) \<Rightarrow> store" where
  \<comment> \<open>The scheduled job \<^verbatim>\<open>check_missions\<close> of \<^verbatim>\<open>main.py\<close>: a new session, the sweep, and
      the session is closed without a further commit, which discards what is not committed.\<close>
  "run_sweep s now draws = committed (check_and_autocomplete_missions (open_session s) now draws)"

subsection \<open>Pet transfer and raids (\<^verbatim>\<open>PetService\<close>, \<^verbatim>\<open>RaidService\<close>)\<close>

definition transfer_pet :: "store \<Rightarrow> pet \<Rightarrow> int \<Rightarrow> string \<Rightarrow> bool \<times> store" where
  "transfer_pet s p new_owner_id reason =
    (case get_user s new_owner_id of
       None \<Rightarrow> (False, s)
     | Some new_owner \<Rightarrow>
         let owner_pets_count = int (length (filter (\<lambda>x. owner_id x = new_owner_id) (pets s)))
         in if owner_pets_count \<ge> pet_slots new_owner then (False, s)
            else
              let p = p\<lparr>is_on_mission := False\<rparr>;
                  p = p\<lparr>is_defending := False\<rparr>;
                  p = p\<lparr>fatigue_until := None\<rparr>;
                  p = p\<lparr>owner_id := new_owner_id\<rparr>;
                  p = p\<lparr>obtained_from := reason\<rparr>
              in (True, put_pet s p))"

definition can_steal_pet :: "pet \<Rightarrow> real \<Rightarrow> bool" where
  \<comment> \<open>\<open>draw\<close> is the value of \<^verbatim>\<open>random.random()\<close>, read only when the loyalty is above 80.\<close>
  "can_steal_pet p draw =
    (if rarity p = ''Mythical'' then False
     else if loyalty p > 80 then draw > LOYALTY_STEAL_REDUCTION
     else True)"

definition set_pet_fatigue :: "store \<Rightarrow> int \<Rightarrow> pet \<Rightarrow> int \<Rightarrow> store" where
  "set_pet_fatigue s now p hours = put_pet s (p\<lparr>fatigue_until := Some (now + hours * 3600)\<rparr>)"

definition calculate_total_defense_power :: "store \<Rightarrow> int \<Rightarrow> int" where
  "calculate_total_defense_power s uid =
    (let defending_pets = filter (\<lambda>p. owner_id p = uid \<and> is_defending p) (pets s);
         total_power = sum_list (map (\<lambda>p. pet_power p * level p) defending_pets)
     in case get_user s uid of
          None \<Rightarrow> total_power
        | Some u \<Rightarrow>
            fold (\<lambda>(trap_type, lvl) total.
                    total + (case map_of TRAP_TYPES trap_type of
                               None \<Rightarrow> 0 | Some td \<Rightarrow> defense_bonus td) * lvl)
                 (traps u) total_power)"

definition get_stealable_pets :: "store \<Rightarrow> int \<Rightarrow> pet list" where
  "get_stealable_pets s uid =
    filter (\<lambda>p. owner_id p = uid \<and> \<not> is_on_mission p \<and> rarity p \<noteq> ''Mythical'') (pets s)"

text \<open>
  The block ``Reset daily raids if needed'' of \<^verbatim>\<open>can_raid_target\<close>. It has three ways
  out. When the attacker has no reset time yet, the current time is stored and committed.
  When the reset time is of an earlier day, the first statement is
  \<^verbatim>\<open>attacker.free_raids_today = GameConstants.DAILY_FREE_RAIDS\<close>, whose right-hand side is
  the attribute lookup: it raises before anything is assigned. When the reset time is of the
  current day, nothing is written. The result is the exception, or the attacker row that has
  been written and committed, if any.
\<close>

definition reset_daily_raids :: "int \<Rightarrow> user \<Rightarrow> error + user option" where
  "reset_daily_raids now attacker =
    (case last_raid_reset attacker of
       Some t \<Rightarrow>
         if t div 86400 < now div 86400 then
           (case GameConstants_getattr ''DAILY_FREE_RAIDS'' of
              Inl e \<Rightarrow> Inl e
            | Inr daily_free_raids \<Rightarrow>
                let attacker = attacker\<lparr>free_raids_today := daily_free_raids\<rparr>;
                    attacker = attacker\<lparr>last_raid_reset := Some now\<rparr>
                in Inr (Some attacker))
         else Inr None
     | None \<Rightarrow> Inr (Some (attacker\<lparr>last_raid_reset := Some now\<rparr>)))"

definition can_raid_target ::
  "store \<Rightarrow> int \<Rightarrow> int \<Rightarrow> int \<Rightarrow> (error + bool \<times> string option) \<times> store" where
  "can_raid_target s now a d =
    (if a = d then (Inr (False, Some ''Cannot raid yourself''), s)
     else case get_user s a of
       None \<Rightarrow> (Inr (False, Some ''User not found''), s)
     | Some attacker \<Rightarrow>
        (case reset_daily_raids now attacker of
           Inl e \<Rightarrow> (Inl e, s)
         | Inr written \<Rightarrow>
             let attacker = (case written of None \<Rightarrow> attacker | Some u \<Rightarrow> u);
                 s = (case written of None \<Rightarrow> s | Some u \<Rightarrow> put_user s u)
             in if free_raids_today attacker \<le> 0
                  then (Inr (False, Some ''No free raids left''), s)
                else if filter (\<lambda>r. attacker_id r = a \<and> defender_id r = d
                                  \<and> timestamp r > now - RAID_COOLDOWN) (raids s) \<noteq> []
                  then (Inr (False, Some ''Target is on cooldown''), s)
                else if (case get_user s d of
                           None \<Rightarrow> False
                         | Some defender \<Rightarrow>
                             (case raid_shield_until defender of
                                None \<Rightarrow> False | Some t \<Rightarrow> t > now))
                  then (Inr (False, Some ''Target is shielded''), s)
                else (Inr (True, None), s)))"

record raid_draws =
  uniform_offset :: real
  outcome_draw :: real
  choice_index :: nat
  loyalty_draw :: real

text \<open>
  The result of a raid without its two display entries (the name of the stolen pet and the
  win chance rounded to a percentage).
\<close>

record raid_result =
  raid_success :: bool
  result_attack_power :: int
  result_defense_power :: int
  result_stolen_pet :: "int option"

definition steal_target :: "store \<Rightarrow> raid_draws \<Rightarrow> int \<Rightarrow> pet option" where
  \<comment> \<open>The pet picked by \<^verbatim>\<open>random.choice(stealable_pets)\<close>, if the list is not empty;
      \<^verbatim>\<open>random.choice(xs)\<close> is \<open>xs ! (choice_index mod length xs)\<close>.\<close>
  "steal_target s rnd d =
    (let stealable_pets = get_stealable_pets s d
     in if stealable_pets \<noteq> []
        then Some (stealable_pets ! (choice_index rnd mod length stealable_pets))
        else None)"

definition steal_attempt :: "store \<Rightarrow> raid_draws \<Rightarrow> int \<Rightarrow> int \<Rightarrow> pet option \<times> store" where
  \<comment> \<open>The block ``Victory - try to steal a pet'' of \<^verbatim>\<open>execute_raid\<close>.\<close>
  "steal_attempt s rnd a d =
    (case steal_target s rnd d of
       None \<Rightarrow> (None, s)
     | Some target_pet \<Rightarrow>
         if can_steal_pet target_pet (loyalty_draw rnd) then
           (case transfer_pet s target_pet a ''raid'' of
              (transfer_success, s) \<Rightarrow>
                if transfer_success then (Some target_pet, s) else (None, s))
         else (None, s))"

definition execute_raid ::
  "store \<Rightarrow> int \<Rightarrow> raid_draws \<Rightarrow> int \<Rightarrow> int \<Rightarrow> int list
     \<Rightarrow> (error + raid_result) \<times> store" where
  "execute_raid s now rnd a d attacker_pet_ids =
    (case can_raid_target s now a d of
       (Inl e, s) \<Rightarrow> (Inl e, s)
     | (Inr (can_raid, err), s) \<Rightarrow>
         if \<not> can_raid then (Inl (ValueError (case err of None \<Rightarrow> [] | Some e \<Rightarrow> e)), s)
         else
           let attacker_pets =
                 List.map_filter
                   (\<lambda>pid. case get_pet s pid of
                             None \<Rightarrow> None
                           | Some p \<Rightarrow> if owner_id p = a then Some p else None)
                   attacker_pet_ids
           in if attacker_pets = [] then (Inl (ValueError ''No valid pets for attack''), s)
              else
                let attack_power = sum_list (map (\<lambda>p. pet_power p * level p) attacker_pets);
                    defense_power = calculate_total_defense_power s d;
                    win_chance = raid_win_chance attack_power defense_power (uniform_offset rnd);
                    success = (outcome_draw rnd < win_chance)
                in if success then
                     (case steal_attempt s rnd a d of
                        (stolen_pet, s) \<Rightarrow>
                          (case get_user s a of
                             None \<Rightarrow> (Inl (AttributeError ''raid_shield_until''), s)
                           | Some attacker \<Rightarrow>
                               let attacker = attacker\<lparr>raid_shield_until :=
                                                          Some (now + RAID_SHIELD_DURATION)\<rparr>;
                                   attacker = attacker\<lparr>raids_won := raids_won attacker + 1\<rparr>;
                                   attacker = attacker\<lparr>free_raids_today :=
                                                          free_raids_today attacker - 1\<rparr>;
                                   s1 = put_user s attacker
                               in (case get_user s1 d of
                                     None \<Rightarrow> (Inl (AttributeError ''defenses_lost''), s)
                                   | Some defender \<Rightarrow>
                                       let s1 = put_user s1
                                                  (defender\<lparr>defenses_lost :=
                                                              defenses_lost defender + 1\<rparr>);
                                           r = \<lparr>attacker_id = a, defender_id = d,
                                                attacker_power = attack_power,
                                                defender_power = defense_power,
                                                result = ''win'',
                                                stolen_pet_id = map_option pet_id stolen_pet,
                                                timestamp = now\<rparr>
                                       in (Inr \<lparr>raid_success = True,
                                                result_attack_power = attack_power,
                                                result_defense_power = defense_power,
                                                result_stolen_pet = map_option pet_id stolen_pet\<rparr>,
                                           s1\<lparr>raids := raids s1 @ [r]\<rparr>))))
                   else
                     (let s = fold (\<lambda>p s. set_pet_fatigue s now p 2) attacker_pets s
                      in case get_user s a of
                           None \<Rightarrow> (Inl (AttributeError ''raids_lost''), s)
                         | Some attacker \<Rightarrow>
                             let attacker = attacker\<lparr>raids_lost := raids_lost attacker + 1\<rparr>;
                                 attacker = attacker\<lparr>free_raids_today :=
                                                        free_raids_today attacker - 1\<rparr>;
                                 s1 = put_user s attacker
                             in (case get_user s1 d of
                                   None \<Rightarrow> (Inl (AttributeError ''defenses_won''), s)
                                 | Some defender \<Rightarrow>
                                     let s1 = put_user s1
                                                (defender\<lparr>defenses_won :=
                                                            defenses_won defender + 1\<rparr>);
                                         r = \<lparr>attacker_id = a, defender_id = d,
                                              attacker_power = attack_power,
                                              defender_power = defense_power,
                                              result = ''lose'',
                                              stolen_pet_id = None,
                                              timestamp = now\<rparr>
                                     in (Inr \<lparr>raid_success = False,
                                              result_attack_power = attack_power,
                                              result_defense_power = defense_power,
                                              result_stolen_pet = None\<rparr>,
                                         s1\<lparr>raids := raids s1 @ [r]\<rparr>))))"

definition buy_trap :: "store \<Rightarrow> user \<Rightarrow> string \<Rightarrow> (error + bool) \<times> store" where
  "buy_trap s u trap_type =
    (case map_of TRAP_TYPES trap_type of
       None \<Rightarrow> (Inl (ValueError ''Invalid trap type''), s)
     | Some td \<Rightarrow>
         let current_level = (case map_of (traps u) trap_type of None \<Rightarrow> 0 | Some l \<Rightarrow> l);
             trap_cost = cost td * (current_level + 1)
         in if coins u < trap_cost then (Inl (ValueError ''Not enough coins''), s)
            else
              let u = u\<lparr>coins := coins u - trap_cost\<rparr>;
                  u = u\<lparr>traps := AList.update trap_type (current_level + 1) (traps u)\<rparr>
              in (Inr True, put_user s u))"

subsection \<open>Achievements (\<^verbatim>\<open>AchievementService.check_and_update_achievements\<close>)\<close>

definition scalar_one_or_none :: "'a list \<Rightarrow> error + 'a option" where
  "scalar_one_or_none rows =
    (case rows of [] \<Rightarrow> Inr None | [x] \<Rightarrow> Inr (Some x) | _ \<Rightarrow> Inl MultipleResultsFound)"

definition progress_matches :: "int \<Rightarrow> int \<Rightarrow> achievement_progress \<Rightarrow> bool" where
  "progress_matches uid aid r = (progress_user_id r = uid \<and> progress_achievement_id r = aid)"

definition put_progress :: "store \<Rightarrow> achievement_progress \<Rightarrow> store" where
  "put_progress s r =
    s\<lparr>progress_rows :=
        map (\<lambda>x. if progress_matches (progress_user_id r) (progress_achievement_id r) x
                 then r else x) (progress_rows s)\<rparr>"

definition achievement_step ::
  "int \<Rightarrow> int \<Rightarrow> int \<Rightarrow> achievement \<Rightarrow> store \<Rightarrow> error + (bool \<times> store)" where
  \<comment> \<open>One iteration of the loop over the achievements; the flag tells whether the
      achievement was appended to \<^verbatim>\<open>newly_completed\<close>.\<close>
  "achievement_step now uid value_increment a s =
    (case scalar_one_or_none
            (filter (progress_matches uid (achievement_id a)) (progress_rows s)) of
       Inl e \<Rightarrow> Inl e
     | Inr found \<Rightarrow>
         let (progress, s) =
               (case found of
                  Some r \<Rightarrow> (r, s)
                | None \<Rightarrow>
                    let r = \<lparr>progress_user_id = uid, progress_achievement_id = achievement_id a,
                             current_value = 0, completed = False, completed_at = None\<rparr>
                    in (r, s\<lparr>progress_rows := progress_rows s @ [r]\<rparr>))
         in if completed progress then Inr (False, s)
            else
              let progress = progress\<lparr>current_value := current_value progress + value_increment\<rparr>
              in if current_value progress \<ge> requirement_value a then
                   let progress = progress\<lparr>completed := True\<rparr>;
                       progress = progress\<lparr>completed_at := Some now\<rparr>;
                       s = put_progress s progress;
                       s = (case get_user s uid of
                              None \<Rightarrow> s
                            | Some u \<Rightarrow>
                                put_user s
                                  (u\<lparr>coins := coins u + achievement_reward_coins a,
                                     stars := stars u + achievement_reward_stars a\<rparr>))
                   in Inr (True, s)
                 else Inr (False, put_progress s progress))"

fun achievements_loop ::
  "int \<Rightarrow> int \<Rightarrow> int \<Rightarrow> achievement list \<Rightarrow> store \<Rightarrow> achievement list
     \<Rightarrow> error + (achievement list \<times> store)" where
  "achievements_loop now uid inc [] s newly_completed = Inr (newly_completed, s)"
| "achievements_loop now uid inc (a # rest) s newly_completed =
    (case achievement_step now uid inc a s of
       Inl e \<Rightarrow> Inl e
     | Inr (hit, s) \<Rightarrow>
         achievements_loop now uid inc rest s
           (if hit then newly_completed @ [a] else newly_completed))"

definition check_and_update_achievements ::
  "store \<Rightarrow> int \<Rightarrow> int \<Rightarrow> string \<Rightarrow> int \<Rightarrow> (error + achievement list) \<times> store" where
  "check_and_update_achievements s now uid achievement_type value_increment =
    (let achs = filter (\<lambda>a. requirement_type a = achievement_type) (achievements s)
     in case achievements_loop now uid value_increment achs s [] of
          Inl e \<Rightarrow> (Inl e, s)
        | Inr (newly_completed, s') \<Rightarrow> (Inr newly_completed, s'))"

subsection \<open>A concrete store\<close>

text \<open>
  Two users and four pets: user 1 owns pet 10; user 2 owns the Mythical pet 20, pet 21 (on a
  mission) and pet 22 (defending, tired), and one level of the basic wall.
\<close>

definition example_user :: "int \<Rightarrow> user" where
  "example_user uid =
    \<lparr>user_id = uid, user_exp = 0, coins = 1000, stars = 0, pet_slots = 5, raids_won = 0,
     raids_lost = 0, defenses_won = 0, defenses_lost = 0, free_raids_today = 5,
     last_raid_reset = None, raid_shield_until = None, traps = []\<rparr>"

definition example_pet :: "int \<Rightarrow> int \<Rightarrow> string \<Rightarrow> pet" where
  "example_pet pid uid r =
    \<lparr>pet_id = pid, owner_id = uid, rarity = r, level = 10, pet_exp = 0, pet_power = 30,
     income_per_hour = 50, stamina = 100, loyalty = 50, is_on_mission = False,
     is_defending = False, fatigue_until = None, evolution_stage = 1, obtained_from = ''egg''\<rparr>"

definition example_store :: store where
  "example_store =
    \<lparr>users = [example_user 1, (example_user 2)\<lparr>traps := [(''basic_wall'', 1)]\<rparr>],
     pets = [(example_pet 10 1 ''Rare'')\<lparr>level := 20, pet_power := 100\<rparr>,
             example_pet 20 2 ''Mythical'',
             (example_pet 21 2 ''Epic'')\<lparr>is_on_mission := True\<rparr>,
             (example_pet 22 2 ''Rare'')\<lparr>is_defending := True, fatigue_until := Some 500000\<rparr>],
     missions = [], raids = [], achievements = [], progress_rows = []\<rparr>"

definition example_draws :: raid_draws where
  "example_draws =
    \<lparr>uniform_offset = 0, outcome_draw = 0.1, choice_index = 7, loyalty_draw = 0.9\<rparr>"

text \<open>
  The same store with user 2 shielded until 200000; user 1 has not raided yet and has no
  reset time. Then the store in which user 1 has two free raids left from day 0.
\<close>

definition shielded_store :: store where
  "shielded_store =
    example_store\<lparr>users :=
      [example_user 1, (example_user 2)\<lparr>raid_shield_until := Some 200000\<rparr>]\<rparr>"

definition stale_reset_store :: store where
  "stale_reset_store =
    example_store\<lparr>users :=
      [(example_user 1)\<lparr>free_raids_today := 2, last_raid_reset := Some 0\<rparr>,
       example_user 2]\<rparr>"

text \<open>
  User 1 after the five raids of the day, and two missions of pet 21: mission 1 is running
  until 100800, mission 2 was completed earlier.
\<close>

definition exhausted_store :: store where
  "exhausted_store =
    example_store\<lparr>users :=
      [(example_user 1)\<lparr>free_raids_today := 0, last_raid_reset := Some 90000\<rparr>,
       example_user 2]\<rparr>"

definition example_mission :: mission where
  "example_mission =
    \<lparr>mission_id = 1, mission_user_id = 2, mission_pet_id = 21, mission_type = ''quick'',
     started_at = 99000, complete_at = 100800, reward_coins = 150, reward_exp = 60,
     status = ''active''\<rparr>"

definition mission_store :: store where
  "mission_store =
    example_store\<lparr>missions :=
      [example_mission,
       example_mission\<lparr>mission_id := 2, started_at := 5000, complete_at := 6800,
                        status := ''completed''\<rparr>]\<rparr>"

text \<open>
  A player with two new pets (level 1, no experience), both on a mission that is over at
  time 50000: pet 31 on an epic mission worth 2100 coins and 840 experience, pet 32 on a
  quick mission worth 52 coins and 21 experience, the rewards \<^verbatim>\<open>start_mission\<close> stores for
  a Common pet of level 1.
\<close>

definition sweep_store :: store where
  "sweep_store =
    \<lparr>users = [example_user 1],
     pets = [example_pet_level1\<lparr>pet_id := 31, owner_id := 1, is_on_mission := True\<rparr>,
             example_pet_level1\<lparr>pet_id := 32, owner_id := 1, is_on_mission := True\<rparr>],
     missions =
       [\<lparr>mission_id = 1, mission_user_id = 1, mission_pet_id = 31, mission_type = ''epic'',
         started_at = 0, complete_at = 43200, reward_coins = 2100, reward_exp = 840,
         status = ''active''\<rparr>,
        \<lparr>mission_id = 2, mission_user_id = 1, mission_pet_id = 32, mission_type = ''quick'',
         started_at = 0, complete_at = 1800, reward_coins = 52, reward_exp = 21,
         status = ''active''\<rparr>],
     raids = [], achievements = [], progress_rows = []\<rparr>"

subsection \<open>Histories of mission operations\<close>

text \<open>
  A caller of the mission service loads the objects by primary key from its session and
  passes them on (as \<^verbatim>\<open>handlers/missions.py\<close> does for \<^verbatim>\<open>start_mission\<close>); when the key
  is unknown there is no object to pass and nothing happens. A history is a list of such
  calls, each with its own session, clock value and random draws; the store between two
  calls is the committed one. A call of \<^verbatim>\<open>complete_mission\<close> on its own leaves behind what
  it has committed, whether it returns or raises.
\<close>

datatype mission_call =
    Start int string int
  | Complete int real int
  | Cancel int int
  | InstantComplete int int int
  | Sweep "int \<Rightarrow> real" int

fun apply_mission_call :: "mission_call \<Rightarrow> store \<Rightarrow> store" where
  "apply_mission_call (Start pid mtype now) s =
    (case get_pet s pid of
       None \<Rightarrow> s
     | Some p \<Rightarrow> snd (start_mission s now p mtype))"
| "apply_mission_call (Complete mid draw now) s =
    (case get_mission s mid of
       None \<Rightarrow> s
     | Some m \<Rightarrow> committed (snd (complete_mission (open_session s) now draw m)))"
| "apply_mission_call (Cancel mid now) s =
    (case get_mission s mid of
       None \<Rightarrow> s
     | Some m \<Rightarrow> snd (cancel_mission s now m))"
| "apply_mission_call (InstantComplete mid uid now) s =
    (case get_mission s mid of
       None \<Rightarrow> s
     | Some m \<Rightarrow>
        (case get_user s uid of
           None \<Rightarrow> s
         | Some u \<Rightarrow> snd (instant_complete_mission s now m u)))"
| "apply_mission_call (Sweep draws now) s = run_sweep s now draws"

definition run_mission_calls :: "mission_call list \<Rightarrow> store \<Rightarrow> store" where
  "run_mission_calls calls s = fold apply_mission_call calls s"

definition status_advance :: "mission \<Rightarrow> mission \<Rightarrow> bool" where
  \<comment> \<open>The transitions the specification allows between two observations \<open>k\<close>, \<open>k'\<close> of one
      mission row: an active mission stays active or becomes completed, failed or cancelled;
      any other row is unchanged.\<close>
  "status_advance k k' =
    (mission_id k' = mission_id k
     \<and> (if status k = ''active''
        then status k' \<in> {''active'', ''completed'', ''failed'', ''cancelled''}
        else k' = k))"

definition rows_advance :: "store \<Rightarrow> store \<Rightarrow> bool" where
  \<comment> \<open>The invariant of a history: mission keys stay unique, and every mission row of the
      earlier store has a row in the later one that it may have advanced to.\<close>
  "rows_advance s s' =
    (distinct (map mission_id (missions s'))
     \<and> (\<forall>k \<in> set (missions s). \<exists>k' \<in> set (missions s'). status_advance k k'))"

subsection \<open>Observing achievement progress\<close>

definition progress_key :: "achievement_progress \<Rightarrow> int \<times> int" where
  "progress_key r = (progress_user_id r, progress_achievement_id r)"

definition progress_of :: "store \<Rightarrow> int \<Rightarrow> int \<Rightarrow> achievement_progress option" where
  "progress_of s uid aid = find (progress_matches uid aid) (progress_rows s)"

definition is_completed :: "store \<Rightarrow> int \<Rightarrow> int \<Rightarrow> bool" where
  "is_completed s uid aid = (case progress_of s uid aid of None \<Rightarrow> False | Some r \<Rightarrow> completed r)"

definition counter_value :: "store \<Rightarrow> int \<Rightarrow> int \<Rightarrow> int" where
  \<comment> \<open>The counter of a progress record; a record that does not exist yet counts as zero.\<close>
  "counter_value s uid aid =
    (case progress_of s uid aid of None \<Rightarrow> 0 | Some r \<Rightarrow> current_value r)"

definition reaches_threshold :: "store \<Rightarrow> int \<Rightarrow> int \<Rightarrow> achievement \<Rightarrow> bool" where
  \<comment> \<open>In store \<open>s\<close> the record is not completed, and the increment takes its counter to the
      threshold of the definition or beyond.\<close>
  "reaches_threshold s uid inc a =
    (\<not> is_completed s uid (achievement_id a)
     \<and> counter_value s uid (achievement_id a) + inc \<ge> requirement_value a)"

definition grant :: "achievement list \<Rightarrow> user \<Rightarrow> user" where
  \<comment> \<open>The user after the rewards of the listed definitions have been added.\<close>
  "grant as u =
    u\<lparr>coins := coins u + sum_list (map achievement_reward_coins as),
      stars := stars u + sum_list (map achievement_reward_stars as)\<rparr>"

fun record_progress_history ::
  "store \<Rightarrow> int \<Rightarrow> (int \<times> string \<times> int) list \<Rightarrow> achievement list list \<times> store" where
  \<comment> \<open>Successive calls (clock, metric key, increment) for one user; the result lists the
      newly completed definitions of each call.\<close>
  "record_progress_history s uid [] = ([], s)"
| "record_progress_history s uid ((now, ty, inc) # calls) =
    (case check_and_update_achievements s now uid ty inc of
       (res, s') \<Rightarrow>
         (case record_progress_history s' uid calls of
            (outs, s'') \<Rightarrow> ((case res of Inl e \<Rightarrow> [] | Inr newly \<Rightarrow> newly) # outs, s'')))"

text \<open>
  Three achievement definitions; user 1 already has one completed mission counted towards
  the first.
\<close>

definition example_achievement :: "int \<Rightarrow> string \<Rightarrow> int \<Rightarrow> int \<Rightarrow> achievement" where
  "example_achievement aid ty threshold reward =
    \<lparr>achievement_id = aid, requirement_type = ty, requirement_value = threshold,
     achievement_reward_coins = reward, achievement_reward_stars = 1\<rparr>"

definition achievement_store :: store where
  "achievement_store =
    example_store\<lparr>achievements :=
      [example_achievement 1 ''missions_completed'' 2 100,
       example_achievement 2 ''missions_completed'' 5 500,
       example_achievement 3 ''pets_owned'' 1 50],
     progress_rows :=
      [\<lparr>progress_user_id = 1, progress_achievement_id = 1, current_value = 1,
        completed = False, completed_at = None\<rparr>]\<rparr>"

subsection \<open>Auxiliary definitions for the achievement proofs\<close>

definition reward_user :: "store \<Rightarrow> int \<Rightarrow> achievement \<Rightarrow> store" where
  \<comment> \<open>The block ``Give rewards'' of \<^verbatim>\<open>check_and_update_achievements\<close>.\<close>
  "reward_user s uid a =
    (case get_user s uid of
       None \<Rightarrow> s
     | Some u \<Rightarrow> put_user s (u\<lparr>coins := coins u + achievement_reward_coins a,
                                stars := stars u + achievement_reward_stars a\<rparr>))"

text \<open>
  The store after one iteration of the loop, written out, and what the loop over a list of
  definitions establishes between the store before and the store after.
\<close>

definition step_store :: "int \<Rightarrow> int \<Rightarrow> int \<Rightarrow> achievement \<Rightarrow> store \<Rightarrow> store" where
  "step_store now uid inc b s =
    (let r = (case progress_of s uid (achievement_id b) of
                Some r \<Rightarrow> r
              | None \<Rightarrow> \<lparr>progress_user_id = uid, progress_achievement_id = achievement_id b,
                          current_value = 0, completed = False, completed_at = None\<rparr>);
         s0 = (case progress_of s uid (achievement_id b) of
                 Some r \<Rightarrow> s
               | None \<Rightarrow> s\<lparr>progress_rows := progress_rows s @ [r]\<rparr>)
     in if completed r then s0
        else if current_value r + inc \<ge> requirement_value b
        then reward_user
               (put_progress s0 (r\<lparr>current_value := current_value r + inc, completed := True,
                                   completed_at := Some now\<rparr>)) uid b
        else put_progress s0 (r\<lparr>current_value := current_value r + inc\<rparr>))"

definition loop_post ::
  "int \<Rightarrow> int \<Rightarrow> achievement list \<Rightarrow> store \<Rightarrow> store \<Rightarrow> bool" where
  "loop_post uid inc achs s s' =
    (distinct (map progress_key (progress_rows s'))
     \<and> achievements s' = achievements s
     \<and> (\<forall>u' a'. u' \<noteq> uid \<or> a' \<notin> achievement_id ` set achs \<longrightarrow>
            progress_of s' u' a' = progress_of s u' a')
     \<and> (\<forall>a'. is_completed s uid a' \<longrightarrow> progress_of s' uid a' = progress_of s uid a')
     \<and> (\<forall>b \<in> set achs. is_completed s' uid (achievement_id b) \<longleftrightarrow>
            is_completed s uid (achievement_id b) \<or> reaches_threshold s uid inc b)
     \<and> (\<forall>v. get_user s' v =
            (if v = uid
             then map_option (grant (filter (reaches_threshold s uid inc) achs)) (get_user s uid)
             else get_user s v)))"

section \<open>Properties\<close>

subsection \<open>Mission success chance\<close>

lemma MISSION_TYPES_fail_chance:
  assumes "map_of MISSION_TYPES tier = Some md"
  shows "0 \<le> fail_chance md"
  using assms by (auto simp: MISSION_TYPES_def split: if_splits)

text \<open>
  Claim C1. For every mission tier of the table, with base fail chance \<open>f\<close>, every pet level
  \<open>L\<close> and every stamina \<open>S\<close> in \<open>[0, 100]\<close>, the success probability computed before
  the random draw is \<open>1 - min(0.5, f * max(0.5, 1 - L*0.005) * (2 - (1 if S >= 50 else S/50)))\<close>,
  and it lies in \<open>[0.5, 1]\<close>.
\<close>

theorem success_chance_formula:
  assumes tier: "map_of MISSION_TYPES tier = Some md"
      and S: "0 \<le> S" "S \<le> 100"
  shows "calculate_mission_success_chance S L tier = Inr (success_probability_spec (fail_chance md) L S)
         \<and> 0.5 \<le> success_probability_spec (fail_chance md) L S
         \<and> success_probability_spec (fail_chance md) L S \<le> 1"
proof -
  let ?sm = "if S \<ge> 50 then 1 else real_of_int S / 50"
  let ?lm = "max 0.5 (1 - real_of_int L * 0.005)"
  let ?ff = "fail_chance md * ?lm * (2 - ?sm)"
  have f0: "0 \<le> fail_chance md" using tier by (rule MISSION_TYPES_fail_chance)
  have lm0: "0 \<le> ?lm" by simp
  have sm1: "?sm \<le> 1" using S by simp
  have ff0: "0 \<le> ?ff" using f0 lm0 sm1 by simp
  have spec: "success_probability_spec (fail_chance md) L S = 1 - min ?ff 0.5"
    by (simp add: success_probability_spec_def min.commute)
  have eq: "calculate_mission_success_chance S L tier = Inr (1 - min ?ff 0.5)"
    using tier by (simp add: calculate_mission_success_chance_def Let_def)
  have lo: "0.5 \<le> 1 - min ?ff 0.5" by simp
  have hi: "1 - min ?ff 0.5 \<le> 1" using ff0 by simp
  show ?thesis unfolding spec using eq lo hi by blast
qed

text \<open>
  An epic mission (\<open>f = 0.30\<close>) with a level-10 pet at stamina 30: the fail chance is
  \<open>0.30 * 0.95 * 1.4 = 0.399\<close>, the success chance \<open>0.601\<close>.
\<close>

theorem success_chance_formula_witness:
  "map_of MISSION_TYPES ''epic'' =
     Some \<lparr>duration = 43200, base_reward = 2000, exp_reward = 800, fail_chance = 0.30\<rparr>
   \<and> (0::int) \<le> 30 \<and> (30::int) \<le> 100
   \<and> calculate_mission_success_chance 30 10 ''epic'' = Inr 0.601
   \<and> success_probability_spec 0.30 10 30 = 0.601"
  using success_chance_formula [of "''epic''"
      "\<lparr>duration = 43200, base_reward = 2000, exp_reward = 800, fail_chance = 0.30\<rparr>" 30 10]
  by (simp add: MISSION_TYPES_def success_probability_spec_def)

subsection \<open>Raid win chance\<close>

lemma clamp_upper: "max (0.1::real) (min 0.9 x) \<le> 0.9"
  by (simp add: max_def min_def)

text \<open>
  Claim C2. For attack power \<open>A \<ge> 0\<close> and defense power \<open>D \<ge> 0\<close>, the win probability
  used for the outcome draw is \<open>A / (A + D)\<close> when \<open>A + D > 0\<close> and \<open>0.5\<close> when
  \<open>A + D = 0\<close>, plus the offset drawn from \<open>[-0.15, 0.15]\<close>, clamped into \<open>[0.10, 0.90]\<close>
  however lopsided the two powers are.
\<close>

theorem raid_win_chance_clamped:
  assumes "0 \<le> A" "0 \<le> D" "- 0.15 \<le> r" "r \<le> 0.15"
  shows "raid_win_chance A D r =
           max 0.1 (min 0.9 ((if A + D > 0 then real_of_int A / real_of_int (A + D) else 0.5) + r))
         \<and> 0.1 \<le> raid_win_chance A D r \<and> raid_win_chance A D r \<le> 0.9"
proof -
  have "A + D = 0 \<or> A + D > 0" using assms by linarith
  then have "raid_win_chance A D r =
           max 0.1 (min 0.9 ((if A + D > 0 then real_of_int A / real_of_int (A + D) else 0.5) + r))"
    by (auto simp: raid_win_chance_def Let_def)
  moreover have "0.1 \<le> raid_win_chance A D r"
    by (simp add: raid_win_chance_def Let_def)
  moreover have "raid_win_chance A D r \<le> 0.9"
    unfolding raid_win_chance_def Let_def by (rule clamp_upper)
  ultimately show ?thesis by blast
qed

theorem raid_win_chance_clamped_witness:
  "(0::int) \<le> 1000000 \<and> (0::int) \<le> 0 \<and> - 0.15 \<le> (0.15::real) \<and> (0.15::real) \<le> 0.15
   \<and> raid_win_chance 1000000 0 0.15 = 0.9"
  using raid_win_chance_clamped [of 1000000 0 "0.15"]
  by (simp add: raid_win_chance_def)

text \<open>
  The three cases of the specification: both powers zero, a hopeless attack, an even fight.
\<close>

lemma raid_win_chance_extremes:
  "raid_win_chance 0 0 (- 0.15) = 0.35 \<and> raid_win_chance 0 1000000 (- 0.15) = 0.1
   \<and> raid_win_chance 100 100 0.15 = 0.65"
  by (simp add: raid_win_chance_def)

text \<open>
  This is the probability the outcome of \<^verbatim>\<open>execute_raid\<close> is drawn against: a raid that
  is carried out is a win exactly when the draw is below the win chance of the two recorded
  powers.
\<close>

lemma execute_raid_outcome:
  assumes "execute_raid s now rnd a d ids = (Inr res, s')"
  shows "raid_success res \<longleftrightarrow>
           outcome_draw rnd
             < raid_win_chance (result_attack_power res) (result_defense_power res)
                 (uniform_offset rnd)"
proof -
  obtain r s1 where c: "can_raid_target s now a d = (r, s1)"
    by (metis prod.exhaust)
  obtain st s2 where sa: "steal_attempt s1 rnd a d = (st, s2)" by (metis prod.exhaust)
  from assms c sa show ?thesis
    by (auto simp: execute_raid_def Let_def split: if_splits option.splits sum.splits)
qed

subsection \<open>Levelling\<close>

declare level_up_loop.simps [simp del]

lemma MAX_PET_LEVEL_undeclared:
  "GameConstants_getattr ''MAX_PET_LEVEL'' = Inl (AttributeError ''MAX_PET_LEVEL'')"
  by (simp add: GameConstants_getattr_def GameConstants_int_attributes_def)

lemma DAILY_FREE_RAIDS_undeclared:
  "GameConstants_getattr ''DAILY_FREE_RAIDS'' = Inl (AttributeError ''DAILY_FREE_RAIDS'')"
  by (simp add: GameConstants_getattr_def GameConstants_int_attributes_def)

text \<open>
  The body of the loop, statement by statement. The loop below never reaches it: its
  condition raises as soon as a level-up is due.
\<close>

lemma level_up_step_fields:
  "level (level_up_step p) = level p + 1"
  "pet_exp (level_up_step p) = pet_exp p - calculate_level_up_requirements (level p)"
  "pet_power (level_up_step p) = pet_power p + 2"
  "income_per_hour (level_up_step p) = py_int (real_of_int (income_per_hour p) * 1.05)"
  "evolution_stage (level_up_step p) =
     (if level p + 1 \<in> set EVOLUTION_LEVELS then evolution_stage p + 1 else evolution_stage p)"
  by (simp_all add: level_up_step_def Let_def)

lemma level_up_loop_eq:
  "level_up_loop p n =
    (if can_level_up (pet_exp p) (level p)
     then (Inl (AttributeError ''MAX_PET_LEVEL''), p) else (Inr n, p))"
  by (subst level_up_loop.simps) (simp add: MAX_PET_LEVEL_undeclared)

lemma add_exp_to_pet_eq:
  "add_exp_to_pet p exp_amount =
    (if can_level_up (pet_exp p + exp_amount) (level p)
     then (Inl (AttributeError ''MAX_PET_LEVEL''), p\<lparr>pet_exp := pet_exp p + exp_amount\<rparr>)
     else (Inr \<lparr>levels_gained = 0, new_level = level p, new_power = pet_power p,
                new_income = income_per_hour p, evolved = False\<rparr>,
           p\<lparr>pet_exp := pet_exp p + exp_amount\<rparr>))"
  by (simp add: add_exp_to_pet_def level_up_loop_eq Let_def)

lemma req_ge_100:
  assumes "0 \<le> l"
  shows "100 \<le> calculate_level_up_requirements l"
proof -
  have "(1::real) \<le> 1.1 ^ nat l" by (rule one_le_power) simp
  then have "(100::real) \<le> 100 * 1.1 ^ nat l" by simp
  then have "100 \<le> \<lfloor>(100::real) * 1.1 ^ nat l\<rfloor>" by (simp add: le_floor_iff)
  moreover have "(0::real) \<le> 100 * 1.1 ^ nat l" by simp
  ultimately show ?thesis
    using assms by (simp add: calculate_level_up_requirements_def py_int_def py_pow_def EXP_PER_LEVEL_def)
qed

lemma req_values:
  "calculate_level_up_requirements 1 = 110" "calculate_level_up_requirements 5 = 161"
  "calculate_level_up_requirements 9 = 235" "calculate_level_up_requirements 10 = 259"
  "calculate_level_up_requirements 100 = 1378061"
  by (simp_all add: calculate_level_up_requirements_def py_int_def py_pow_def EXP_PER_LEVEL_def
      power_divide)

text \<open>
  \<^verbatim>\<open>add_exp_to_pet\<close> raises exactly when the experience of the pet, after the gain, reaches
  the requirement of its level. Whether it raises or returns, it has added the experience to
  the pet object and changed nothing else: the level of a pet never changes.
\<close>

lemma add_exp_to_pet_raises_iff:
  "fst (add_exp_to_pet p exp_amount) = Inl (AttributeError ''MAX_PET_LEVEL'')
     \<longleftrightarrow> calculate_level_up_requirements (level p) \<le> pet_exp p + exp_amount"
  by (simp add: add_exp_to_pet_eq can_level_up_def Let_def)

lemma add_exp_to_pet_object:
  "snd (add_exp_to_pet p exp_amount) = p\<lparr>pet_exp := pet_exp p + exp_amount\<rparr>"
  by (simp add: add_exp_to_pet_eq)

text \<open>
  Claim C3 (the code departs from it). The specification caps the level at the configured
  maximum and keeps the experience beyond the cap without error. The loop of
  \<^verbatim>\<open>add_exp_to_pet\<close> reads the cap as \<^verbatim>\<open>GameConstants.MAX_PET_LEVEL\<close>, which the class does
  not declare, right after it has found that a level-up is due. The call therefore raises
  \<^verbatim>\<open>AttributeError\<close> instead of keeping the experience: for a pet at level 100 that
  receives 5000000 experience, and already for a new pet (level 1, no experience) that
  receives the 840 experience of an epic mission. The experience has been added to the pet
  object by then; the function has not committed and returns no result.
\<close>

theorem add_exp_beyond_cap_raises:
  "add_exp_to_pet (example_pet_level9\<lparr>level := 100\<rparr>) 5000000 =
     (Inl (AttributeError ''MAX_PET_LEVEL''),
      example_pet_level9\<lparr>level := 100, pet_exp := 5000000\<rparr>)
   \<and> add_exp_to_pet example_pet_level1 840 =
     (Inl (AttributeError ''MAX_PET_LEVEL''), example_pet_level1\<lparr>pet_exp := 840\<rparr>)"
  by (simp add: add_exp_to_pet_eq can_level_up_def Let_def req_values example_pet_level9_def
      example_pet_level1_def)



text \<open>
  Claim C7 (the code departs from it). A gain that takes the experience of a pet to exactly
  \<open>requirement(level)\<close> makes a level-up due, so the loop condition goes on to read the
  undeclared \<^verbatim>\<open>GameConstants.MAX_PET_LEVEL\<close> and the call raises \<^verbatim>\<open>AttributeError\<close>: no
  level is gained, power and income are unchanged, and the experience added stays on the pet
  object. So it is for a new pet (level 1) that receives \<open>requirement(1) = 110\<close> and for the
  level-5 pet of the specification's scenario that receives \<open>requirement(5) = 161\<close>. It is
  the defect of claim C3.
\<close>

theorem exact_requirement_raises:
  "calculate_level_up_requirements (level example_pet_level1) = 110
   \<and> add_exp_to_pet example_pet_level1 110 =
       (Inl (AttributeError ''MAX_PET_LEVEL''), example_pet_level1\<lparr>pet_exp := 110\<rparr>)
   \<and> calculate_level_up_requirements (level example_pet_level5) = 161
   \<and> add_exp_to_pet example_pet_level5 161 =
       (Inl (AttributeError ''MAX_PET_LEVEL''), example_pet_level5\<lparr>pet_exp := 161\<rparr>)"
  by (simp add: add_exp_to_pet_def level_up_loop.simps can_level_up_def Let_def req_values
      MAX_PET_LEVEL_undeclared example_pet_level1_def example_pet_level5_def)

text \<open>The same for every pet: at exactly the requirement the call raises.\<close>

lemma exact_requirement_raises_always:
  assumes "pet_exp p + exp_amount = calculate_level_up_requirements (level p)"
  shows "add_exp_to_pet p exp_amount =
           (Inl (AttributeError ''MAX_PET_LEVEL''),
            p\<lparr>pet_exp := calculate_level_up_requirements (level p)\<rparr>)"
  using assms by (simp add: add_exp_to_pet_eq can_level_up_def Let_def)

subsection \<open>Rows found and written by key\<close>

lemma find_key_map_update:
  "find (\<lambda>x. key x = k) (map (\<lambda>x. if key x = key v then v else x) xs) =
     (if key v = k then map_option (\<lambda>_. v) (find (\<lambda>x. key x = k) xs)
      else find (\<lambda>x. key x = k) xs)"
  by (induction xs) auto

lemma find_distinct_key:
  assumes "distinct (map key xs)" and "x \<in> set xs"
  shows "find (\<lambda>y. key y = key x) xs = Some x"
  using assms by (induction xs) (auto simp: image_iff)

lemma map_key_update_ids:
  "map key (map (\<lambda>x. if key x = key v then v else x) xs) = map key xs"
  by (induction xs) auto

lemma get_pet_put_pet:
  "get_pet (put_pet s p) k =
     (if pet_id p = k then map_option (\<lambda>_. p) (get_pet s k) else get_pet s k)"
  unfolding get_pet_def put_pet_def by (simp add: find_key_map_update [where key = pet_id])

lemmas example_defs = example_store_def example_user_def example_pet_def example_draws_def

subsection \<open>Pet transfer\<close>

text \<open>
  Claim C10. A successful \<^verbatim>\<open>transfer_pet\<close> (whatever the reason, trade or raid) leaves
  the pet, whatever its state under the previous owner, with the new owner, not on a mission,
  not defending and with no fatigue; a refused transfer changes nothing, and the transfer is
  refused exactly when the recipient does not exist or already owns as many pets as it has
  slots.
\<close>

theorem transfer_pet_idle:
  assumes "get_pet s (pet_id p) = Some p"
  shows "(fst (transfer_pet s p new_owner_id reason) \<longrightarrow>
            get_pet (snd (transfer_pet s p new_owner_id reason)) (pet_id p) =
              Some (p\<lparr>is_on_mission := False, is_defending := False, fatigue_until := None,
                      owner_id := new_owner_id, obtained_from := reason\<rparr>))
       \<and> (\<not> fst (transfer_pet s p new_owner_id reason) \<longrightarrow>
            snd (transfer_pet s p new_owner_id reason) = s)
       \<and> (fst (transfer_pet s p new_owner_id reason) \<longleftrightarrow>
            (\<exists>u. get_user s new_owner_id = Some u
                 \<and> int (length (filter (\<lambda>x. owner_id x = new_owner_id) (pets s))) < pet_slots u))"
  using assms
  by (auto simp: transfer_pet_def Let_def get_pet_put_pet split: option.splits)

text \<open>
  Pet 22 of user 2 is defending and tired; traded to user 1 (one pet, five slots) it arrives
  idle.
\<close>

theorem transfer_pet_idle_witness:
  "get_pet example_store 22 =
     Some ((example_pet 22 2 ''Rare'')\<lparr>is_defending := True, fatigue_until := Some 500000\<rparr>)
   \<and> fst (transfer_pet example_store
            ((example_pet 22 2 ''Rare'')\<lparr>is_defending := True, fatigue_until := Some 500000\<rparr>)
            1 ''trade'')
   \<and> get_pet (snd (transfer_pet example_store
            ((example_pet 22 2 ''Rare'')\<lparr>is_defending := True, fatigue_until := Some 500000\<rparr>)
            1 ''trade'')) 22
       = Some ((example_pet 22 1 ''Rare'')\<lparr>obtained_from := ''trade''\<rparr>)"
  using transfer_pet_idle [of example_store
      "(example_pet 22 2 ''Rare'')\<lparr>is_defending := True, fatigue_until := Some 500000\<rparr>"
      1 "''trade''"]
  by (simp add: example_defs get_pet_def get_user_def)

text \<open>With a single slot the same transfer is refused and the store is unchanged.\<close>

lemma transfer_pet_refused_example:
  "transfer_pet (example_store\<lparr>users := [(example_user 1)\<lparr>pet_slots := 1\<rparr>, example_user 2]\<rparr>)
     ((example_pet 22 2 ''Rare'')\<lparr>is_defending := True, fatigue_until := Some 500000\<rparr>) 1 ''trade''
   = (False, example_store\<lparr>users := [(example_user 1)\<lparr>pet_slots := 1\<rparr>, example_user 2]\<rparr>)"
  by (simp add: transfer_pet_def get_user_def example_defs)

subsection \<open>Raid steal target\<close>

lemma can_raid_target_pets:
  "pets (snd (can_raid_target s now a d)) = pets s"
  by (auto simp: can_raid_target_def Let_def put_user_def split: option.splits sum.splits)

lemma steal_target_stealable:
  "steal_target s rnd d = Some t \<Longrightarrow> t \<in> set (get_stealable_pets s d)"
  by (auto simp: steal_target_def Let_def split: if_splits)

lemma steal_target_pets_cong:
  "pets s' = pets s \<Longrightarrow> steal_target s' rnd d = steal_target s rnd d"
  by (simp add: steal_target_def get_stealable_pets_def)

lemma steal_attempt_Some:
  assumes "steal_attempt s rnd a d = (Some t, s')"
  shows "steal_target s rnd d = Some t"
  using assms
  by (auto simp: steal_attempt_def Let_def split: if_splits prod.splits option.splits)

lemma execute_raid_stolen:
  assumes "execute_raid s now rnd a d ids = (Inr res, s')"
      and "result_stolen_pet res = Some pid"
  shows "\<exists>t. steal_target s rnd d = Some t \<and> pet_id t = pid"
proof -
  obtain r s1 where c: "can_raid_target s now a d = (r, s1)"
    by (metis prod.exhaust)
  have p1: "pets s1 = pets s" using can_raid_target_pets [of s now a d] c by simp
  obtain st s2 where sa: "steal_attempt s1 rnd a d = (st, s2)" by (metis prod.exhaust)
  from assms c sa have "map_option pet_id st = Some pid"
    by (auto simp: execute_raid_def Let_def split: if_splits option.splits sum.splits)
  then obtain t where "st = Some t" "pet_id t = pid" by auto
  with sa p1 show ?thesis
    using steal_attempt_Some steal_target_pets_cong by metis
qed

lemma steal_target_reachable:
  assumes "t \<in> set (get_stealable_pets s d)"
  shows "\<exists>k. steal_target s (rnd\<lparr>choice_index := k\<rparr>) d = Some t"
proof -
  from assms obtain k where k: "k < length (get_stealable_pets s d)" "get_stealable_pets s d ! k = t"
    by (auto simp: in_set_conv_nth)
  then have "steal_target s (rnd\<lparr>choice_index := k\<rparr>) d = Some t"
    by (auto simp: steal_target_def Let_def)
  then show ?thesis ..
qed

text \<open>
  Claim C9. In a raid the steal target is the element of \<^verbatim>\<open>get_stealable_pets\<close> at the
  drawn index: it is always a pet of the defender that is not on a mission and not Mythical;
  a pet reported as stolen by \<^verbatim>\<open>execute_raid\<close> is that target; and every such pet of the
  defender is the target for some value of the draw (each index picks one row of the list).
\<close>

theorem raid_steal_target_eligible:
  "(\<forall>t. steal_target s rnd d = Some t \<longrightarrow>
         t \<in> set (pets s) \<and> owner_id t = d \<and> \<not> is_on_mission t \<and> rarity t \<noteq> ''Mythical'')
   \<and> (\<forall>res s' pid. execute_raid s now rnd a d ids = (Inr res, s')
                    \<and> result_stolen_pet res = Some pid \<longrightarrow>
         (\<exists>t. steal_target s rnd d = Some t \<and> pet_id t = pid))
   \<and> (\<forall>t. t \<in> set (pets s) \<and> owner_id t = d \<and> \<not> is_on_mission t \<and> rarity t \<noteq> ''Mythical'' \<longrightarrow>
         (\<exists>k. steal_target s (rnd\<lparr>choice_index := k\<rparr>) d = Some t))"
proof (intro conjI allI impI)
  fix t assume "steal_target s rnd d = Some t"
  then have "t \<in> set (get_stealable_pets s d)" by (rule steal_target_stealable)
  then show "t \<in> set (pets s)" "owner_id t = d" "\<not> is_on_mission t" "rarity t \<noteq> ''Mythical''"
    by (simp_all add: get_stealable_pets_def)
next
  fix res s' pid
  assume "execute_raid s now rnd a d ids = (Inr res, s') \<and> result_stolen_pet res = Some pid"
  then show "\<exists>t. steal_target s rnd d = Some t \<and> pet_id t = pid"
    using execute_raid_stolen by blast
next
  fix t
  assume "t \<in> set (pets s) \<and> owner_id t = d \<and> \<not> is_on_mission t \<and> rarity t \<noteq> ''Mythical''"
  then have "t \<in> set (get_stealable_pets s d)" by (simp add: get_stealable_pets_def)
  then show "\<exists>k. steal_target s (rnd\<lparr>choice_index := k\<rparr>) d = Some t"
    by (rule steal_target_reachable)
qed

text \<open>
  User 1 raids user 2 with pet 10 (attack 2000 against defense 310) and wins. Of the
  defender's pets only pet 22 is eligible (pet 20 is Mythical, pet 21 is on a mission), and
  it is the one stolen.
\<close>

theorem raid_steal_target_eligible_witness:
  "steal_target example_store example_draws 2 =
     Some ((example_pet 22 2 ''Rare'')\<lparr>is_defending := True, fatigue_until := Some 500000\<rparr>)
   \<and> fst (execute_raid example_store 100000 example_draws 1 2 [10]) =
       Inr \<lparr>raid_success = True, result_attack_power = 2000, result_defense_power = 310,
            result_stolen_pet = Some 22\<rparr>
   \<and> (\<exists>k. steal_target example_store (example_draws\<lparr>choice_index := k\<rparr>) 2 =
       Some ((example_pet 22 2 ''Rare'')\<lparr>is_defending := True, fatigue_until := Some 500000\<rparr>))"
proof -
  have target: "steal_target example_store example_draws 2 =
     Some ((example_pet 22 2 ''Rare'')\<lparr>is_defending := True, fatigue_until := Some 500000\<rparr>)"
    by (simp add: steal_target_def get_stealable_pets_def example_defs)
  have raid: "fst (execute_raid example_store 100000 example_draws 1 2 [10]) =
       Inr \<lparr>raid_success = True, result_attack_power = 2000, result_defense_power = 310,
            result_stolen_pet = Some 22\<rparr>"
    by (simp add: execute_raid_def can_raid_target_def reset_daily_raids_def get_user_def
        put_user_def get_pet_def put_pet_def List.map_filter_def
        calculate_total_defense_power_def TRAP_TYPES_def raid_win_chance_def steal_attempt_def
        steal_target_def get_stealable_pets_def can_steal_pet_def transfer_pet_def
        RAID_SHIELD_DURATION_def RAID_COOLDOWN_def example_defs Let_def)
  have elig: "(example_pet 22 2 ''Rare'')\<lparr>is_defending := True, fatigue_until := Some 500000\<rparr>
                \<in> set (pets example_store)
      \<and> owner_id ((example_pet 22 2 ''Rare'')\<lparr>is_defending := True, fatigue_until := Some 500000\<rparr>) = 2
      \<and> \<not> is_on_mission ((example_pet 22 2 ''Rare'')\<lparr>is_defending := True, fatigue_until := Some 500000\<rparr>)
      \<and> rarity ((example_pet 22 2 ''Rare'')\<lparr>is_defending := True, fatigue_until := Some 500000\<rparr>)
           \<noteq> ''Mythical''"
    using raid_steal_target_eligible
            [of example_store example_draws 2 100000 1 "[10]"] target
    by blast
  then have "\<exists>k. steal_target example_store (example_draws\<lparr>choice_index := k\<rparr>) 2 =
       Some ((example_pet 22 2 ''Rare'')\<lparr>is_defending := True, fatigue_until := Some 500000\<rparr>)"
    using raid_steal_target_eligible
            [of example_store example_draws 2 100000 1 "[10]"]
    by blast
  with target raid show ?thesis by blast
qed

subsection \<open>A stolen pet arrives idle\<close>

lemma pets_put_user [simp]: "pets (put_user s u) = pets s"
  by (simp add: put_user_def)

lemma get_pet_pets_cong: "pets s' = pets s \<Longrightarrow> get_pet s' pid = get_pet s pid"
  by (simp add: get_pet_def)

lemma transfer_pet_success:
  assumes "get_pet s (pet_id p) = Some p" and "transfer_pet s p new_owner_id reason = (True, s')"
  shows "get_pet s' (pet_id p) =
           Some (p\<lparr>is_on_mission := False, is_defending := False, fatigue_until := None,
                   owner_id := new_owner_id, obtained_from := reason\<rparr>)"
  using assms
  by (auto simp: transfer_pet_def Let_def get_pet_put_pet split: option.splits if_splits)

lemma steal_attempt_transfer:
  assumes "steal_attempt s rnd a d = (Some t, s')"
  shows "transfer_pet s t a ''raid'' = (True, s')"
  using assms
  by (auto simp: steal_attempt_def Let_def split: if_splits prod.splits option.splits)

text \<open>
  The transfer of Claim C10 inside a raid: when \<^verbatim>\<open>execute_raid\<close> reports a stolen pet (and
  pet ids are unique), the stored pet is the steal target, now owned by the attacker, not on
  a mission, not defending and without fatigue.
\<close>

lemma execute_raid_stolen_pet_idle:
  assumes ex: "execute_raid s now rnd a d ids = (Inr res, s')"
      and st: "result_stolen_pet res = Some pid"
      and di: "distinct (map pet_id (pets s))"
  shows "\<exists>t. steal_target s rnd d = Some t \<and> pet_id t = pid
           \<and> get_pet s' pid =
               Some (t\<lparr>is_on_mission := False, is_defending := False, fatigue_until := None,
                       owner_id := a, obtained_from := ''raid''\<rparr>)"
proof -
  obtain r s1 where c: "can_raid_target s now a d = (r, s1)"
    by (metis prod.exhaust)
  have p1: "pets s1 = pets s" using can_raid_target_pets [of s now a d] c by simp
  obtain so s2 where sa: "steal_attempt s1 rnd a d = (so, s2)" by (metis prod.exhaust)
  from ex st c sa have m: "map_option pet_id so = Some pid"
    by (auto simp: execute_raid_def Let_def split: if_splits option.splits sum.splits)
  then obtain t where t: "so = Some t" "pet_id t = pid" by auto
  have tgt: "steal_target s rnd d = Some t"
    using steal_attempt_Some [of s1 rnd a d t s2] sa t(1) steal_target_pets_cong [OF p1] by simp
  then have "t \<in> set (pets s)"
    using steal_target_stealable [OF tgt] by (simp add: get_stealable_pets_def)
  then have "get_pet s (pet_id t) = Some t"
    unfolding get_pet_def using di by (intro find_distinct_key)
  then have g1: "get_pet s1 (pet_id t) = Some t" using get_pet_pets_cong [OF p1] by simp
  have tr: "transfer_pet s1 t a ''raid'' = (True, s2)"
    using steal_attempt_transfer sa t(1) by simp
  have g2: "get_pet s2 pid =
               Some (t\<lparr>is_on_mission := False, is_defending := False, fatigue_until := None,
                       owner_id := a, obtained_from := ''raid''\<rparr>)"
    using transfer_pet_success [OF g1 tr] t(2) by simp
  from ex st c sa t have "pets s' = pets s2"
    by (auto simp: execute_raid_def Let_def split: if_splits option.splits sum.splits)
  then have "get_pet s' pid = get_pet s2 pid" by (rule get_pet_pets_cong)
  with g2 tgt t(2) show ?thesis by simp
qed

subsection \<open>Rejected operations\<close>

lemma start_mission_rejected:
  "start_mission s now p mtype = (Inl e, s') \<Longrightarrow> s' = s"
  by (auto simp: start_mission_def Let_def split: if_splits option.splits sum.splits prod.splits)

lemma buy_trap_rejected:
  "buy_trap s u trap_type = (Inl e, s') \<Longrightarrow> s' = s"
  by (auto simp: buy_trap_def Let_def split: if_splits option.splits)

lemma instant_complete_mission_rejected:
  "instant_complete_mission s now m u = (Inl e, s') \<Longrightarrow> s' = s"
  by (auto simp: instant_complete_mission_def Let_def split: if_splits)

lemma complete_mission_rejected:
  "complete_mission ss now draw m = (Inl (ValueError msg), ss') \<Longrightarrow> ss' = ss"
  by (auto simp: complete_mission_def Let_def add_exp_to_pet_eq calculate_mission_success_chance_def
           split: if_splits option.splits sum.splits prod.splits)

lemma reset_daily_raids_eq:
  "reset_daily_raids now u =
    (case last_raid_reset u of
       None \<Rightarrow> Inr (Some (u\<lparr>last_raid_reset := Some now\<rparr>))
     | Some t \<Rightarrow>
         if t div 86400 < now div 86400 then Inl (AttributeError ''DAILY_FREE_RAIDS'')
         else Inr None)"
  by (simp add: reset_daily_raids_def DAILY_FREE_RAIDS_undeclared split: option.splits)

lemma can_raid_target_store:
  "snd (can_raid_target s now a d) =
     (if a = d then s
      else case get_user s a of
             None \<Rightarrow> s
           | Some attacker \<Rightarrow>
               (case last_raid_reset attacker of
                  None \<Rightarrow> put_user s (attacker\<lparr>last_raid_reset := Some now\<rparr>)
                | Some t \<Rightarrow> s))"
  by (auto simp: can_raid_target_def reset_daily_raids_eq Let_def split: option.splits)

lemma execute_raid_rejected:
  assumes "execute_raid s now rnd a d ids = (Inl (ValueError msg), s')"
  shows "s' = snd (can_raid_target s now a d)"
proof -
  obtain r s1 where c: "can_raid_target s now a d = (r, s1)"
    by (metis prod.exhaust)
  obtain st s2 where sa: "steal_attempt s1 rnd a d = (st, s2)" by (metis prod.exhaust)
  from assms c sa have "s' = s1"
    by (auto simp: execute_raid_def Let_def split: if_splits option.splits sum.splits)
  with c show ?thesis by simp
qed

lemmas raid_defs = execute_raid_def can_raid_target_def reset_daily_raids_eq get_user_def
        put_user_def get_pet_def put_pet_def List.map_filter_def
        calculate_total_defense_power_def TRAP_TYPES_def raid_win_chance_def steal_attempt_def
        steal_target_def get_stealable_pets_def can_steal_pet_def transfer_pet_def
        RAID_SHIELD_DURATION_def RAID_COOLDOWN_def

text \<open>
  Claim C8, as amended. An operation rejected by \<^verbatim>\<open>start_mission\<close>, \<^verbatim>\<open>buy_trap\<close> or
  \<^verbatim>\<open>instant_complete_mission\<close>, and a mission that \<^verbatim>\<open>complete_mission\<close> rejects with a
  validation error, leave the store (for \<^verbatim>\<open>complete_mission\<close>: the session) unchanged.
  A raid rejected with a validation error leaves the store unchanged when the attacker raids
  themselves, does not exist, or already has a reset time. When the attacker has no reset
  time yet, \<^verbatim>\<open>can_raid_target\<close> has stored the current time in the attacker's
  \<^verbatim>\<open>last_raid_reset\<close> and committed it before the counter, cooldown and shield checks:
  the store after the rejection is the old one with that one field written.
\<close>

theorem rejected_operation_state:
  "(\<forall>e s'. start_mission s now p mtype = (Inl e, s') \<longrightarrow> s' = s)
   \<and> (\<forall>e s'. buy_trap s u trap_type = (Inl e, s') \<longrightarrow> s' = s)
   \<and> (\<forall>e s'. instant_complete_mission s now m u = (Inl e, s') \<longrightarrow> s' = s)
   \<and> (\<forall>msg ss'. complete_mission ss now draw m = (Inl (ValueError msg), ss') \<longrightarrow> ss' = ss)
   \<and> (\<forall>msg s'. execute_raid s now rnd a d ids = (Inl (ValueError msg), s') \<longrightarrow>
        (a = d \<longrightarrow> s' = s)
        \<and> (get_user s a = None \<longrightarrow> s' = s)
        \<and> (\<forall>attacker. a \<noteq> d \<and> get_user s a = Some attacker \<longrightarrow>
              (last_raid_reset attacker = None \<longrightarrow>
                 s' = put_user s (attacker\<lparr>last_raid_reset := Some now\<rparr>))
              \<and> (last_raid_reset attacker \<noteq> None \<longrightarrow> s' = s)))"
proof (intro conjI allI impI)
  fix e s' assume "start_mission s now p mtype = (Inl e, s')"
  then show "s' = s" by (rule start_mission_rejected)
next
  fix e s' assume "buy_trap s u trap_type = (Inl e, s')"
  then show "s' = s" by (rule buy_trap_rejected)
next
  fix e s' assume "instant_complete_mission s now m u = (Inl e, s')"
  then show "s' = s" by (rule instant_complete_mission_rejected)
next
  fix msg ss' assume "complete_mission ss now draw m = (Inl (ValueError msg), ss')"
  then show "ss' = ss" by (rule complete_mission_rejected)
next
  fix msg s' assume r: "execute_raid s now rnd a d ids = (Inl (ValueError msg), s')" and "a = d"
  then show "s' = s" using execute_raid_rejected [OF r] by (simp add: can_raid_target_store)
next
  fix msg s' assume r: "execute_raid s now rnd a d ids = (Inl (ValueError msg), s')"
    and "get_user s a = None"
  then show "s' = s" using execute_raid_rejected [OF r] by (simp add: can_raid_target_store)
next
  fix msg s' attacker
  assume r: "execute_raid s now rnd a d ids = (Inl (ValueError msg), s')"
    and a: "a \<noteq> d \<and> get_user s a = Some attacker"
    and n: "last_raid_reset attacker = None"
  then show "s' = put_user s (attacker\<lparr>last_raid_reset := Some now\<rparr>)"
    using execute_raid_rejected [OF r] by (simp add: can_raid_target_store)
next
  fix msg s' attacker
  assume r: "execute_raid s now rnd a d ids = (Inl (ValueError msg), s')"
    and a: "a \<noteq> d \<and> get_user s a = Some attacker"
    and n: "last_raid_reset attacker \<noteq> None"
  then show "s' = s"
    using execute_raid_rejected [OF r] by (auto simp: can_raid_target_store)
qed

text \<open>
  One rejection of each kind: a pet already on a mission, too few coins for a trap, too few
  Stars to skip ahead, a mission resolved before its time, a raid on oneself, a raid on a
  shielded defender by an attacker without a reset time (the time of the attempt is stored),
  and a raid with the counter exhausted on the same day.
\<close>

theorem rejected_operation_state_witness:
  "start_mission example_store 100000 ((example_pet 21 2 ''Epic'')\<lparr>is_on_mission := True\<rparr>) ''quick''
     = (Inl (ValueError ''Pet is already on a mission''), example_store)
   \<and> buy_trap example_store (example_user 1) ''laser_grid''
     = (Inl (ValueError ''Not enough coins''), example_store)
   \<and> instant_complete_mission mission_store 100000 example_mission (example_user 2)
     = (Inl (ValueError ''Not enough Stars''), mission_store)
   \<and> complete_mission (open_session mission_store) 100000 0.5 example_mission
     = (Inl (ValueError ''Mission is not complete yet''), open_session mission_store)
   \<and> execute_raid shielded_store 100000 example_draws 1 1 [10]
     = (Inl (ValueError ''Cannot raid yourself''), shielded_store)
   \<and> execute_raid shielded_store 100000 example_draws 1 2 [10]
     = (Inl (ValueError ''Target is shielded''),
        put_user shielded_store ((example_user 1)\<lparr>last_raid_reset := Some 100000\<rparr>))
   \<and> execute_raid exhausted_store 100000 example_draws 1 2 [10]
     = (Inl (ValueError ''No free raids left''), exhausted_store)"
proof -
  let ?p21 = "(example_pet 21 2 ''Epic'')\<lparr>is_on_mission := True\<rparr>"
  let ?x1 = "(example_user 1)\<lparr>free_raids_today := 0, last_raid_reset := Some 90000\<rparr>"
  note T1 = rejected_operation_state [where s = example_store and now = 100000
       and p = ?p21 and mtype = "''quick''" and u = "example_user 1"
       and trap_type = "''laser_grid''"]
  note T2 = rejected_operation_state [where s = mission_store and now = 100000
       and m = example_mission and u = "example_user 2" and ss = "open_session mission_store"
       and draw = "0.5"]
  note T3 = rejected_operation_state [where s = shielded_store and now = 100000
       and rnd = example_draws and a = 1 and d = 1 and ids = "[10]"]
  note T4 = rejected_operation_state [where s = shielded_store and now = 100000
       and rnd = example_draws and a = 1 and d = 2 and ids = "[10]"]
  note T5 = rejected_operation_state [where s = exhausted_store and now = 100000
       and rnd = example_draws and a = 1 and d = 2 and ids = "[10]"]
  have e1: "start_mission example_store 100000 ?p21 ''quick''
            = (Inl (ValueError ''Pet is already on a mission''),
               snd (start_mission example_store 100000 ?p21 ''quick''))"
    by (simp add: prod_eq_iff start_mission_def example_defs)
  have e2: "buy_trap example_store (example_user 1) ''laser_grid''
            = (Inl (ValueError ''Not enough coins''),
               snd (buy_trap example_store (example_user 1) ''laser_grid''))"
    by (simp add: prod_eq_iff buy_trap_def TRAP_TYPES_def example_defs)
  have e3: "instant_complete_mission mission_store 100000 example_mission (example_user 2)
            = (Inl (ValueError ''Not enough Stars''),
               snd (instant_complete_mission mission_store 100000 example_mission (example_user 2)))"
    by (simp add: prod_eq_iff instant_complete_mission_def example_mission_def py_int_def
        example_defs Let_def)
  have e4: "complete_mission (open_session mission_store) 100000 0.5 example_mission
            = (Inl (ValueError ''Mission is not complete yet''),
               snd (complete_mission (open_session mission_store) 100000 0.5 example_mission))"
    by (simp add: prod_eq_iff complete_mission_def example_mission_def)
  have e5: "execute_raid shielded_store 100000 example_draws 1 1 [10]
            = (Inl (ValueError ''Cannot raid yourself''),
               snd (execute_raid shielded_store 100000 example_draws 1 1 [10]))"
    by (simp add: prod_eq_iff execute_raid_def can_raid_target_def)
  have e6: "execute_raid shielded_store 100000 example_draws 1 2 [10]
            = (Inl (ValueError ''Target is shielded''),
               snd (execute_raid shielded_store 100000 example_draws 1 2 [10]))"
    by (simp add: prod_eq_iff raid_defs shielded_store_def example_defs Let_def)
  have e7: "execute_raid exhausted_store 100000 example_draws 1 2 [10]
            = (Inl (ValueError ''No free raids left''),
               snd (execute_raid exhausted_store 100000 example_draws 1 2 [10]))"
    by (simp add: prod_eq_iff raid_defs exhausted_store_def example_defs Let_def)
  have g6: "get_user shielded_store 1 = Some (example_user 1)"
    "last_raid_reset (example_user 1) = None"
    by (simp_all add: get_user_def shielded_store_def example_defs)
  have g7: "get_user exhausted_store 1 = Some ?x1" "last_raid_reset ?x1 \<noteq> None"
    by (simp_all add: get_user_def exhausted_store_def example_defs)
  have ne: "(1::int) \<noteq> 2" by simp
  have s1: "snd (start_mission example_store 100000 ?p21 ''quick'') = example_store"
    using T1 e1 by blast
  have s2: "snd (buy_trap example_store (example_user 1) ''laser_grid'') = example_store"
    using T1 e2 by blast
  have s3: "snd (instant_complete_mission mission_store 100000 example_mission (example_user 2))
              = mission_store"
    using T2 e3 by blast
  have s4: "snd (complete_mission (open_session mission_store) 100000 0.5 example_mission)
              = open_session mission_store"
    using T2 e4 by blast
  have s5: "snd (execute_raid shielded_store 100000 example_draws 1 1 [10])
              = shielded_store"
    using T3 e5 by blast
  have s6: "snd (execute_raid shielded_store 100000 example_draws 1 2 [10]) =
      put_user shielded_store ((example_user 1)\<lparr>last_raid_reset := Some 100000\<rparr>)"
    using T4 e6 g6 ne by blast
  have s7: "snd (execute_raid exhausted_store 100000 example_draws 1 2 [10])
              = exhausted_store"
    using T5 e7 g7 ne by blast
  show ?thesis
    using e1 e2 e3 e4 e5 e6 e7 unfolding s1 s2 s3 s4 s5 s6 s7 by simp
qed

text \<open>
  Claim C8 as stated fails: the raid of user 1, who has no reset time yet, on the shielded
  user 2 is rejected, and the stored attacker has changed.
\<close>

theorem rejected_raid_mutates_counterexample:
  "fst (execute_raid shielded_store 100000 example_draws 1 2 [10])
     = Inl (ValueError ''Target is shielded'')
   \<and> snd (execute_raid shielded_store 100000 example_draws 1 2 [10]) \<noteq> shielded_store
   \<and> map last_raid_reset (users shielded_store) = [None, None]
   \<and> map last_raid_reset
        (users (snd (execute_raid shielded_store 100000 example_draws 1 2 [10])))
       = [Some 100000, None]"
  by (simp add: raid_defs shielded_store_def example_defs Let_def)

text \<open>
  A raid by an attacker whose reset time is of an earlier day is not rejected: it ends in the
  \<^verbatim>\<open>AttributeError\<close> of the undeclared \<^verbatim>\<open>GameConstants.DAILY_FREE_RAIDS\<close>, raised before
  anything is written, whatever the defender and the pets. User 1 of the store below was
  reset on day 0 and raids on day 1.
\<close>

lemma execute_raid_stale_reset:
  assumes "a \<noteq> d" and "get_user s a = Some attacker" and "last_raid_reset attacker = Some t"
      and "t div 86400 < now div 86400"
  shows "execute_raid s now rnd a d ids = (Inl (AttributeError ''DAILY_FREE_RAIDS''), s)"
  using assms by (simp add: execute_raid_def can_raid_target_def reset_daily_raids_eq)

lemma execute_raid_stale_reset_example:
  "execute_raid stale_reset_store 100000 example_draws 1 2 [10]
     = (Inl (AttributeError ''DAILY_FREE_RAIDS''), stale_reset_store)"
  by (simp add: execute_raid_def can_raid_target_def reset_daily_raids_eq get_user_def
      stale_reset_store_def example_defs)

subsection \<open>Mission status\<close>

lemma status_advance_refl: "status_advance k k"
  by (simp add: status_advance_def)

lemma status_advance_trans:
  "status_advance k k1 \<Longrightarrow> status_advance k1 k2 \<Longrightarrow> status_advance k k2"
  by (auto simp: status_advance_def split: if_splits)

lemma rows_advance_refl: "distinct (map mission_id (missions s)) \<Longrightarrow> rows_advance s s"
  by (auto simp: rows_advance_def intro: status_advance_refl)

lemma rows_advance_trans:
  "rows_advance s s1 \<Longrightarrow> rows_advance s1 s2 \<Longrightarrow> rows_advance s s2"
  unfolding rows_advance_def by (meson status_advance_trans)

lemma rows_advance_same_missions:
  "distinct (map mission_id (missions s)) \<Longrightarrow> missions s' = missions s \<Longrightarrow> rows_advance s s'"
  by (auto simp: rows_advance_def intro: status_advance_refl)

lemma missions_put [simp]:
  "missions (put_user s u) = missions s" "missions (put_pet s p) = missions s"
  by (simp_all add: put_user_def put_pet_def)

lemma put_mission_advance:
  assumes d: "distinct (map mission_id (missions s))"
      and m: "m \<in> set (missions s)" "status m = ''active''"
      and m': "mission_id m' = mission_id m"
              "status m' \<in> {''active'', ''completed'', ''failed'', ''cancelled''}"
      and s1: "missions s1 = missions s"
  shows "rows_advance s (put_mission s1 m')"
proof -
  let ?f = "\<lambda>x. if mission_id x = mission_id m' then m' else x"
  have ms: "missions (put_mission s1 m') = map ?f (missions s)"
    by (simp add: put_mission_def s1)
  have ids: "map mission_id (map ?f (missions s)) = map mission_id (missions s)"
    by (rule map_key_update_ids)
  have uniq: "\<And>x. x \<in> set (missions s) \<Longrightarrow> mission_id x = mission_id m \<Longrightarrow> x = m"
    using d m(1) by (auto simp: distinct_map inj_on_def)
  have adv: "\<And>k. k \<in> set (missions s) \<Longrightarrow> status_advance k (?f k)"
    using uniq m m' by (auto simp: status_advance_def)
  have all: "\<forall>k \<in> set (missions s). \<exists>k' \<in> set (map ?f (missions s)). status_advance k k'"
  proof
    fix k assume k: "k \<in> set (missions s)"
    then have "?f k \<in> set (map ?f (missions s))" by (simp only: set_map) (rule imageI)
    with adv [OF k] show "\<exists>k' \<in> set (map ?f (missions s)). status_advance k k'" by blast
  qed
  have dist: "distinct (map mission_id (map ?f (missions s)))"
    using d by (simp only: ids)
  show ?thesis
    unfolding rows_advance_def ms using dist all by blast
qed

lemma put_mission_keeps_others:
  assumes "x \<in> set (missions s)" and "mission_id x \<noteq> mission_id m'"
  shows "x \<in> set (missions (put_mission s m'))"
  using assms by (auto simp: put_mission_def image_iff)

lemma rows_advance_missions_cong:
  "rows_advance s s1 \<Longrightarrow> missions s2 = missions s1 \<Longrightarrow> rows_advance s s2"
  by (simp add: rows_advance_def)

text \<open>
  What \<^verbatim>\<open>complete_mission\<close> does to the mission rows of a session. Either the rows are as
  before and nothing has been committed (every exception, the one of the level-up loop
  included), or the mission was active, its status has been written and everything the
  session holds has been committed.
\<close>

lemma complete_mission_cases:
  "(missions (pending (snd (complete_mission ss now draw m))) = missions (pending ss)
      \<and> committed (snd (complete_mission ss now draw m)) = committed ss)
   \<or> (status m = ''active''
      \<and> (\<exists>s1 st. missions s1 = missions (pending ss) \<and> st \<in> {''completed'', ''failed''}
            \<and> pending (snd (complete_mission ss now draw m)) = put_mission s1 (m\<lparr>status := st\<rparr>)
            \<and> committed (snd (complete_mission ss now draw m))
                = put_mission s1 (m\<lparr>status := st\<rparr>)))"
proof (cases "fst (complete_mission ss now draw m)")
  case (Inl e)
  then have "complete_mission ss now draw m = (Inl e, snd (complete_mission ss now draw m))"
    by (simp add: prod_eq_iff)
  then have "missions (pending (snd (complete_mission ss now draw m))) = missions (pending ss)
      \<and> committed (snd (complete_mission ss now draw m)) = committed ss"
    by (auto simp: complete_mission_def Let_def add_exp_to_pet_eq
             split: if_splits option.splits sum.splits prod.splits)
  then show ?thesis by blast
next
  case (Inr r)
  then have act: "status m = ''active''"
    by (auto simp: complete_mission_def split: if_splits)
  from Inr obtain p c u where
    p: "get_pet (pending ss) (mission_pet_id m) = Some p"
    and c: "calculate_mission_success_chance (stamina p) (level p) (mission_type m) = Inr c"
    and u: "get_user (pending ss) (mission_user_id m) = Some u"
    by (auto simp: complete_mission_def Let_def split: if_splits option.splits sum.splits)
  show ?thesis
  proof (cases "draw < c")
    case True
    let ?u = "u\<lparr>coins := coins u + reward_coins m, user_exp := user_exp u + reward_exp m div 10\<rparr>"
    let ?p0 = "p\<lparr>pet_exp := pet_exp p + reward_exp m\<rparr>"
    let ?s1 = "put_pet (put_pet (put_user (pending ss) ?u) ?p0) (?p0\<lparr>is_on_mission := False\<rparr>)"
    have "snd (complete_mission ss now draw m)
          = \<lparr>committed = put_mission ?s1 (m\<lparr>status := ''completed''\<rparr>),
             pending = put_mission ?s1 (m\<lparr>status := ''completed''\<rparr>)\<rparr>"
      using act p c u True Inr
      by (auto simp: complete_mission_def Let_def add_exp_to_pet_eq commit_def
               split: if_splits prod.splits)
    then have "pending (snd (complete_mission ss now draw m))
                 = put_mission ?s1 (m\<lparr>status := ''completed''\<rparr>)"
      and "committed (snd (complete_mission ss now draw m))
                 = put_mission ?s1 (m\<lparr>status := ''completed''\<rparr>)"
      by simp_all
    moreover have "missions ?s1 = missions (pending ss)" by simp
    ultimately show ?thesis using act by blast
  next
    case False
    let ?u = "u\<lparr>coins := coins u + py_int (real_of_int (reward_coins m) * 0.2)\<rparr>"
    let ?p = "p\<lparr>fatigue_until := Some (now + 3600), is_on_mission := False\<rparr>"
    let ?s1 = "put_pet (put_user (pending ss) ?u) ?p"
    have "snd (complete_mission ss now draw m)
          = \<lparr>committed = put_mission ?s1 (m\<lparr>status := ''failed''\<rparr>),
             pending = put_mission ?s1 (m\<lparr>status := ''failed''\<rparr>)\<rparr>"
      using act p c u False Inr
      by (auto simp: complete_mission_def Let_def commit_def split: if_splits prod.splits)
    then have "pending (snd (complete_mission ss now draw m))
                 = put_mission ?s1 (m\<lparr>status := ''failed''\<rparr>)"
      and "committed (snd (complete_mission ss now draw m))
                 = put_mission ?s1 (m\<lparr>status := ''failed''\<rparr>)"
      by simp_all
    moreover have "missions ?s1 = missions (pending ss)" by simp
    ultimately show ?thesis using act by blast
  qed
qed

text \<open>
  The mission rows of a session and of its committed store agree before and after
  \<^verbatim>\<open>complete_mission\<close>: what an exception leaves uncommitted is never in a mission row.
\<close>

lemma complete_mission_advance:
  assumes "distinct (map mission_id (missions (pending ss)))"
      and "m \<in> set (missions (pending ss))"
      and "missions (committed ss) = missions (pending ss)"
  shows "rows_advance (pending ss) (pending (snd (complete_mission ss now draw m)))
       \<and> missions (committed (snd (complete_mission ss now draw m)))
           = missions (pending (snd (complete_mission ss now draw m)))"
proof -
  let ?ss' = "snd (complete_mission ss now draw m)"
  from complete_mission_cases [of ss now draw m]
  consider "missions (pending ?ss') = missions (pending ss)" "committed ?ss' = committed ss"
    | s1 st where "status m = ''active''" "missions s1 = missions (pending ss)"
        "st \<in> {''completed'', ''failed''}"
        "pending ?ss' = put_mission s1 (m\<lparr>status := st\<rparr>)"
        "committed ?ss' = put_mission s1 (m\<lparr>status := st\<rparr>)"
    by blast
  then show ?thesis
  proof cases
    case 1
    have "rows_advance (pending ss) (pending ?ss')"
      using assms(1) 1(1) by (rule rows_advance_same_missions)
    then show ?thesis using 1 assms(3) by simp
  next
    case 2
    have "rows_advance (pending ss) (put_mission s1 (m\<lparr>status := st\<rparr>))"
      by (rule put_mission_advance [OF assms(1) assms(2) 2(1)]) (use 2 in auto)
    then show ?thesis using 2 by simp
  qed
qed

lemma complete_mission_keeps_others:
  assumes "x \<in> set (missions (pending ss))" and "mission_id x \<noteq> mission_id m"
  shows "x \<in> set (missions (pending (snd (complete_mission ss now draw m))))"
proof -
  let ?ss' = "snd (complete_mission ss now draw m)"
  from complete_mission_cases [of ss now draw m]
  consider "missions (pending ?ss') = missions (pending ss)"
    | s1 st where "missions s1 = missions (pending ss)"
        "pending ?ss' = put_mission s1 (m\<lparr>status := st\<rparr>)"
    by blast
  then show ?thesis
  proof cases
    case 1 then show ?thesis using assms by simp
  next
    case 2
    have "x \<in> set (missions (put_mission s1 (m\<lparr>status := st\<rparr>)))"
      by (rule put_mission_keeps_others) (use assms 2 in simp_all)
    then show ?thesis using 2 by simp
  qed
qed

lemma cancel_mission_cases:
  "snd (cancel_mission s now m) = s
   \<or> (status m = ''active''
      \<and> (\<exists>s1. missions s1 = missions s
            \<and> snd (cancel_mission s now m) = put_mission s1 (m\<lparr>status := ''cancelled''\<rparr>)))"
proof (cases "status m = ''active''")
  case False
  then show ?thesis by (simp add: cancel_mission_def)
next
  case True
  let ?s1 = "case get_pet s (mission_pet_id m) of
               None \<Rightarrow> s
             | Some p \<Rightarrow> put_pet s (p\<lparr>is_on_mission := False, fatigue_until := Some (now + 3600)\<rparr>)"
  have "missions ?s1 = missions s" by (simp split: option.splits)
  moreover have "snd (cancel_mission s now m) = put_mission ?s1 (m\<lparr>status := ''cancelled''\<rparr>)"
    using True by (simp add: cancel_mission_def Let_def)
  ultimately show ?thesis using True by blast
qed

lemma cancel_mission_advance:
  assumes "distinct (map mission_id (missions s))" and "m \<in> set (missions s)"
  shows "rows_advance s (snd (cancel_mission s now m))"
  using cancel_mission_cases [of s now m] assms
  by (auto intro!: put_mission_advance rows_advance_refl)

lemma instant_complete_mission_cases:
  "snd (instant_complete_mission s now m u) = s
   \<or> (status m = ''active''
      \<and> (\<exists>s1. missions s1 = missions s
            \<and> snd (instant_complete_mission s now m u) = put_mission s1 (m\<lparr>complete_at := now\<rparr>)))"
proof (cases "fst (instant_complete_mission s now m u)")
  case (Inl e)
  then have "instant_complete_mission s now m u
               = (Inl e, snd (instant_complete_mission s now m u))"
    by (simp add: prod_eq_iff)
  then show ?thesis
    by (auto simp: instant_complete_mission_def Let_def split: if_splits)
next
  case (Inr r)
  let ?cost = "max 20 (py_int (real_of_int (complete_at m - now) / 3600 * 10))"
  let ?s1 = "put_user s (u\<lparr>stars := stars u - ?cost\<rparr>)"
  from Inr have act: "status m = ''active''"
    by (auto simp: instant_complete_mission_def split: if_splits)
  from Inr act have "snd (instant_complete_mission s now m u)
                       = put_mission ?s1 (m\<lparr>complete_at := now\<rparr>)"
    by (auto simp: instant_complete_mission_def Let_def split: if_splits)
  moreover have "missions ?s1 = missions s" by simp
  ultimately show ?thesis using act by blast
qed

lemma instant_complete_mission_advance:
  assumes "distinct (map mission_id (missions s))" and "m \<in> set (missions s)"
  shows "rows_advance s (snd (instant_complete_mission s now m u))"
  using instant_complete_mission_cases [of s now m u] assms
  by (auto intro!: put_mission_advance rows_advance_refl)

lemma fold_max_ge: "(a::int) \<le> fold max ids a \<and> (\<forall>x \<in> set ids. x \<le> fold max ids a)"
proof (induction ids arbitrary: a)
  case Nil
  then show ?case by simp
next
  case (Cons i ids)
  have "max i a \<le> fold max ids (max i a)" using Cons.IH [of "max i a"] by blast
  then show ?case using Cons.IH [of "max i a"] by auto
qed

lemma fresh_id_fresh: "fresh_id ids \<notin> set ids"
proof
  assume "fresh_id ids \<in> set ids"
  then have "fresh_id ids \<le> fold max ids 0" using fold_max_ge [of 0 ids] by blast
  then show False by (simp add: fresh_id_def)
qed

lemma start_mission_cases:
  "snd (start_mission s now p mtype) = s
   \<or> (\<exists>m. mission_id m = fresh_id (map mission_id (missions s))
          \<and> missions (snd (start_mission s now p mtype)) = missions s @ [m])"
  by (auto simp: start_mission_def Let_def put_pet_def
      split: if_splits option.splits sum.splits prod.splits)

lemma start_mission_advance:
  assumes "distinct (map mission_id (missions s))"
  shows "rows_advance s (snd (start_mission s now p mtype))"
proof -
  from start_mission_cases [of s now p mtype]
  consider "snd (start_mission s now p mtype) = s"
    | m where "mission_id m = fresh_id (map mission_id (missions s))"
        "missions (snd (start_mission s now p mtype)) = missions s @ [m]"
    by blast
  then show ?thesis
  proof cases
    case 1
    then show ?thesis using assms by (simp add: rows_advance_refl)
  next
    case 2
    have "mission_id m \<notin> set (map mission_id (missions s))"
      unfolding 2(1) by (rule fresh_id_fresh)
    then have "distinct (map mission_id (missions s @ [m]))" using assms by simp
    moreover have "\<forall>k \<in> set (missions s). \<exists>k' \<in> set (missions s @ [m]). status_advance k k'"
      by (auto intro: status_advance_refl)
    ultimately show ?thesis unfolding rows_advance_def 2(2) by blast
  qed
qed

lemma rows_advance_distinct: "rows_advance s s' \<Longrightarrow> distinct (map mission_id (missions s'))"
  by (simp add: rows_advance_def)

lemma sweep_fold_advance:
  assumes "distinct (map mission_id (missions (pending ss)))"
      and "set ready \<subseteq> set (missions (pending ss))"
      and "distinct (map mission_id ready)"
      and "missions (committed ss) = missions (pending ss)"
  shows "rows_advance (pending ss)
           (pending (fold (\<lambda>m ss. snd (complete_mission ss now (draws (mission_id m)) m)) ready ss))
       \<and> missions (committed
            (fold (\<lambda>m ss. snd (complete_mission ss now (draws (mission_id m)) m)) ready ss))
         = missions (pending
            (fold (\<lambda>m ss. snd (complete_mission ss now (draws (mission_id m)) m)) ready ss))"
  using assms
proof (induction ready arbitrary: ss)
  case Nil
  then show ?case by (simp add: rows_advance_refl)
next
  case (Cons m rest)
  let ?s1 = "snd (complete_mission ss now (draws (mission_id m)) m)"
  let ?f = "fold (\<lambda>m ss. snd (complete_mission ss now (draws (mission_id m)) m)) rest ?s1"
  have m: "m \<in> set (missions (pending ss))" using Cons.prems(2) by simp
  have a1: "rows_advance (pending ss) (pending ?s1)"
    and c1: "missions (committed ?s1) = missions (pending ?s1)"
    using complete_mission_advance [OF Cons.prems(1) m Cons.prems(4)] by simp_all
  have d1: "distinct (map mission_id (missions (pending ?s1)))"
    using a1 by (rule rows_advance_distinct)
  have sub: "set rest \<subseteq> set (missions (pending ?s1))"
  proof
    fix x assume x: "x \<in> set rest"
    then have "x \<in> set (missions (pending ss))" using Cons.prems(2) by auto
    moreover have "mission_id x \<noteq> mission_id m" using Cons.prems(3) x by (auto simp: image_iff)
    ultimately show "x \<in> set (missions (pending ?s1))" by (rule complete_mission_keeps_others)
  qed
  have dr: "distinct (map mission_id rest)" using Cons.prems(3) by simp
  have ih: "rows_advance (pending ?s1) (pending ?f)
            \<and> missions (committed ?f) = missions (pending ?f)"
    using d1 sub dr c1 by (rule Cons.IH)
  then have "rows_advance (pending ss) (pending ?f)"
    using a1 rows_advance_trans by blast
  with ih show ?case by simp
qed

lemma run_sweep_advance:
  assumes "distinct (map mission_id (missions s))"
  shows "rows_advance s (run_sweep s now draws)"
proof -
  let ?ready = "filter (\<lambda>m. status m = ''active'' \<and> complete_at m \<le> now) (missions s)"
  let ?f = "fold (\<lambda>m ss. snd (complete_mission ss now (draws (mission_id m)) m)) ?ready
              (open_session s)"
  have "rows_advance (pending (open_session s)) (pending ?f)
        \<and> missions (committed ?f) = missions (pending ?f)"
    by (rule sweep_fold_advance) (use assms in \<open>auto simp: open_session_def distinct_map_filter\<close>)
  then have "rows_advance s (committed ?f)"
    using rows_advance_missions_cong [of s "pending ?f" "committed ?f"]
    by (simp add: open_session_def)
  then show ?thesis
    by (simp add: run_sweep_def check_and_autocomplete_missions_def open_session_def Let_def)
qed

lemma complete_call_advance:
  assumes "distinct (map mission_id (missions s))" and "m \<in> set (missions s)"
  shows "rows_advance s (committed (snd (complete_mission (open_session s) now draw m)))"
proof -
  let ?ss' = "snd (complete_mission (open_session s) now draw m)"
  have "rows_advance (pending (open_session s)) (pending ?ss')
        \<and> missions (committed ?ss') = missions (pending ?ss')"
    by (rule complete_mission_advance) (use assms in \<open>simp_all add: open_session_def\<close>)
  then show ?thesis
    using rows_advance_missions_cong [of s "pending ?ss'" "committed ?ss'"]
    by (simp add: open_session_def)
qed

lemma find_in_set: "find P xs = Some x \<Longrightarrow> x \<in> set xs"
  by (auto simp: find_Some_iff)

lemma apply_mission_call_advance:
  assumes "distinct (map mission_id (missions s))"
  shows "rows_advance s (apply_mission_call c s)"
proof (cases c)
  case (Start pid mtype now)
  then show ?thesis
    using assms by (auto simp: rows_advance_refl start_mission_advance split: option.splits)
next
  case (Complete mid draw now)
  then show ?thesis
    using assms
    by (auto simp: rows_advance_refl get_mission_def split: option.splits
        intro!: complete_call_advance dest: find_in_set)
next
  case (Cancel mid now)
  then show ?thesis
    using assms
    by (auto simp: rows_advance_refl get_mission_def split: option.splits
        intro!: cancel_mission_advance dest: find_in_set)
next
  case (InstantComplete mid uid now)
  then show ?thesis
    using assms
    by (auto simp: rows_advance_refl get_mission_def split: option.splits
        intro!: instant_complete_mission_advance dest: find_in_set)
next
  case (Sweep draws now)
  then show ?thesis
    using assms by (simp add: run_sweep_advance)
qed

lemma run_mission_calls_advance:
  assumes "distinct (map mission_id (missions s))"
  shows "rows_advance s (run_mission_calls calls s)"
  using assms
proof (induction calls arbitrary: s)
  case Nil
  then show ?case by (simp add: run_mission_calls_def rows_advance_refl)
next
  case (Cons c calls)
  have a1: "rows_advance s (apply_mission_call c s)"
    using Cons.prems by (rule apply_mission_call_advance)
  then have "rows_advance (apply_mission_call c s)
               (run_mission_calls calls (apply_mission_call c s))"
    by (intro Cons.IH rows_advance_distinct)
  with a1 show ?case by (simp add: run_mission_calls_def rows_advance_trans)
qed

lemma run_mission_calls_append:
  "run_mission_calls (c1 @ c2) s = run_mission_calls c2 (run_mission_calls c1 s)"
  by (simp add: run_mission_calls_def)

lemmas mission_defs = run_mission_calls_def run_sweep_def check_and_autocomplete_missions_def
  open_session_def commit_def
  complete_mission_def cancel_mission_def instant_complete_mission_def start_mission_def
  get_mission_def put_mission_def get_pet_def put_pet_def get_user_def put_user_def
  calculate_mission_success_chance_def MISSION_TYPES_def add_exp_to_pet_eq can_level_up_def

text \<open>
  Claim C4. Take any store with unique mission keys, any of its mission rows \<open>k\<close>, and any
  history of start, complete, cancel, instant-complete and sweep calls, observed after a
  first part \<open>c1\<close> and again after a second part \<open>c2\<close>. The row is still there at both
  points, and each observation is related to the previous one by \<open>status_advance\<close>: from
  \<^verbatim>\<open>active\<close> the status is still \<^verbatim>\<open>active\<close> or one of \<^verbatim>\<open>completed\<close>, \<^verbatim>\<open>failed\<close>,
  \<^verbatim>\<open>cancelled\<close>; once it is anything else, the row is never changed again.
\<close>

theorem mission_status_one_directional:
  assumes "distinct (map mission_id (missions s))" and "k \<in> set (missions s)"
  shows "\<exists>k1 k2. get_mission (run_mission_calls c1 s) (mission_id k) = Some k1
               \<and> get_mission (run_mission_calls (c1 @ c2) s) (mission_id k) = Some k2
               \<and> status_advance k k1 \<and> status_advance k1 k2"
proof -
  let ?s1 = "run_mission_calls c1 s"
  let ?s2 = "run_mission_calls c2 ?s1"
  have a1: "rows_advance s ?s1" using assms(1) by (rule run_mission_calls_advance)
  then have d1: "distinct (map mission_id (missions ?s1))" by (rule rows_advance_distinct)
  then have a2: "rows_advance ?s1 ?s2" by (rule run_mission_calls_advance)
  then have d2: "distinct (map mission_id (missions ?s2))" by (rule rows_advance_distinct)
  from a1 assms(2) obtain k1 where k1: "k1 \<in> set (missions ?s1)" "status_advance k k1"
    unfolding rows_advance_def by blast
  from a2 k1(1) obtain k2 where k2: "k2 \<in> set (missions ?s2)" "status_advance k1 k2"
    unfolding rows_advance_def by blast
  have i1: "mission_id k1 = mission_id k" using k1(2) by (simp add: status_advance_def)
  have i2: "mission_id k2 = mission_id k" using k2(2) i1 by (simp add: status_advance_def)
  have "get_mission ?s1 (mission_id k1) = Some k1"
    unfolding get_mission_def using d1 k1(1) by (rule find_distinct_key)
  moreover have "get_mission ?s2 (mission_id k2) = Some k2"
    unfolding get_mission_def using d2 k2(1) by (rule find_distinct_key)
  ultimately show ?thesis
    using k1(2) k2(2) i1 i2 by (auto simp: run_mission_calls_append)
qed

text \<open>
  Mission 1 is resolved by a sweep at time 200000 (the draw 0 is below the success chance
  0.9525, and its 60 experience leave pet 21 below the requirement of its level) and becomes
  \<^verbatim>\<open>completed\<close>; a later cancel, complete, instant-complete, a new mission of the same pet
  and another sweep leave it as it is.
\<close>

theorem mission_status_one_directional_witness:
  "distinct (map mission_id (missions mission_store))
   \<and> example_mission \<in> set (missions mission_store)
   \<and> get_mission (run_mission_calls [Sweep (\<lambda>_. 0) 200000] mission_store) 1
       = Some (example_mission\<lparr>status := ''completed''\<rparr>)
   \<and> get_mission (run_mission_calls
         ([Sweep (\<lambda>_. 0) 200000]
          @ [Cancel 1 300000, Complete 1 0.99 300000, InstantComplete 1 2 300000,
             Start 21 ''epic'' 300000, Sweep (\<lambda>_. 0.99) 400000]) mission_store) 1
       = Some (example_mission\<lparr>status := ''completed''\<rparr>)
   \<and> status_advance example_mission (example_mission\<lparr>status := ''completed''\<rparr>)
   \<and> status_advance (example_mission\<lparr>status := ''completed''\<rparr>)
        (example_mission\<lparr>status := ''completed''\<rparr>)"
proof -
  have d: "distinct (map mission_id (missions mission_store))"
    by (simp add: mission_store_def example_mission_def example_defs)
  have m: "example_mission \<in> set (missions mission_store)"
    by (simp add: mission_store_def example_defs)
  have g1: "get_mission (run_mission_calls [Sweep (\<lambda>_. 0) 200000] mission_store) 1
       = Some (example_mission\<lparr>status := ''completed''\<rparr>)"
    by (simp add: mission_defs req_values mission_store_def example_mission_def example_defs Let_def)
  have g2: "get_mission (run_mission_calls
         ([Sweep (\<lambda>_. 0) 200000]
          @ [Cancel 1 300000, Complete 1 0.99 300000, InstantComplete 1 2 300000,
             Start 21 ''epic'' 300000, Sweep (\<lambda>_. 0.99) 400000]) mission_store) 1
       = Some (example_mission\<lparr>status := ''completed''\<rparr>)"
    by (simp add: mission_defs req_values mission_store_def example_mission_def example_defs Let_def
        generate_mission_rewards_def rarity_bonus_def fresh_id_def py_int_def)
  have i: "mission_id example_mission = 1" by (simp add: example_mission_def)
  from mission_status_one_directional [OF d m, of "[Sweep (\<lambda>_. 0) 200000]"
      "[Cancel 1 300000, Complete 1 0.99 300000, InstantComplete 1 2 300000,
        Start 21 ''epic'' 300000, Sweep (\<lambda>_. 0.99) 400000]"]
  have "status_advance example_mission (example_mission\<lparr>status := ''completed''\<rparr>)
      \<and> status_advance (example_mission\<lparr>status := ''completed''\<rparr>)
           (example_mission\<lparr>status := ''completed''\<rparr>)"
    unfolding i g1 g2 by simp
  with d m g1 g2 show ?thesis by blast
qed

text \<open>
  The exception of the level-up loop inside a sweep. Mission 1 succeeds on the draw 0; the
  player is paid 2100 coins and 84 experience, pet 31 receives 840 experience, a level-up is
  due and \<^verbatim>\<open>add_exp_to_pet\<close> raises: the mission stays \<^verbatim>\<open>active\<close> and pet 31 stays on it.
  The sweep logs the exception and goes on with mission 2, which completes (21 experience
  are below the requirement 110) and commits the session, the payment for mission 1
  included: the player ends with \<open>1000 + 2100 + 52\<close> coins. A sweep in which no mission
  completes after the exception commits nothing, and neither does a single call of
  \<^verbatim>\<open>complete_mission\<close> from a handler, whose session is rolled back.
\<close>

lemma sweep_exception_example:
  "run_sweep sweep_store 50000 (\<lambda>_. 0) =
     sweep_store
       \<lparr>users := [(example_user 1)\<lparr>coins := 3152, user_exp := 86\<rparr>],
        pets := [example_pet_level1\<lparr>pet_id := 31, owner_id := 1, is_on_mission := True,
                                   pet_exp := 840\<rparr>,
                 example_pet_level1\<lparr>pet_id := 32, owner_id := 1, is_on_mission := False,
                                   pet_exp := 21\<rparr>],
        missions := [hd (missions sweep_store),
                     (missions sweep_store ! 1)\<lparr>status := ''completed''\<rparr>]\<rparr>"
  "map status (missions (run_sweep sweep_store 50000 (\<lambda>_. 0))) = [''active'', ''completed'']"
  "run_sweep (run_sweep sweep_store 50000 (\<lambda>_. 0)) 50060 (\<lambda>_. 0)
     = run_sweep sweep_store 50000 (\<lambda>_. 0)"
  "apply_mission_call (Complete 1 0 50000) sweep_store = sweep_store"
  by (simp_all add: mission_defs req_values sweep_store_def example_pet_level1_def
      example_user_def Let_def)

subsection \<open>Achievements\<close>

lemma progress_matches_key: "progress_matches uid aid r \<longleftrightarrow> progress_key r = (uid, aid)"
  by (auto simp: progress_matches_def progress_key_def)

lemma progress_matches_key_fun:
  "progress_matches uid aid = (\<lambda>r. progress_key r = (uid, aid))"
  by (rule ext) (rule progress_matches_key)

lemma filter_unique_key:
  assumes "distinct (map key xs)"
  shows "filter (\<lambda>x. key x = k) xs = (case find (\<lambda>x. key x = k) xs of None \<Rightarrow> [] | Some x \<Rightarrow> [x])"
  using assms
proof (induction xs)
  case Nil
  then show ?case by simp
next
  case (Cons x xs)
  show ?case
  proof (cases "key x = k")
    case True
    then have "k \<notin> key ` set xs" using Cons.prems by auto
    then have "filter (\<lambda>x. key x = k) xs = []" by (auto simp: filter_empty_conv)
    then show ?thesis using True by simp
  next
    case False
    then show ?thesis using Cons by simp
  qed
qed

lemma find_append_key:
  "find P (xs @ ys) = (case find P xs of None \<Rightarrow> find P ys | Some x \<Rightarrow> Some x)"
  by (induction xs) auto

lemma put_progress_rows:
  "progress_rows (put_progress s r) =
     map (\<lambda>x. if progress_key x = progress_key r then r else x) (progress_rows s)"
  by (simp add: put_progress_def progress_matches_key progress_key_def)

lemma progress_of_key:
  "progress_of s uid aid = find (\<lambda>r. progress_key r = (uid, aid)) (progress_rows s)"
  by (simp add: progress_of_def progress_matches_key_fun)


lemma find_user_id: "get_user s uid = Some u \<Longrightarrow> user_id u = uid"
  by (auto simp: get_user_def find_Some_iff)

lemma get_user_put_user:
  "get_user (put_user s u) v =
     (if user_id u = v then map_option (\<lambda>_. u) (get_user s v) else get_user s v)"
  unfolding get_user_def put_user_def by (simp add: find_key_map_update [where key = user_id])

lemma put_frames [simp]:
  "users (put_progress s r) = users s" "achievements (put_progress s r) = achievements s"
  "progress_rows (put_user s u) = progress_rows s" "achievements (put_user s u) = achievements s"
  by (simp_all add: put_progress_def put_user_def)

lemma reward_user_frames [simp]:
  "progress_rows (reward_user s uid a) = progress_rows s"
  "achievements (reward_user s uid a) = achievements s"
  by (simp_all add: reward_user_def split: option.splits)

lemma get_user_reward_user:
  "get_user (reward_user s uid a) v =
     (if v = uid then map_option (grant [a]) (get_user s uid) else get_user s v)"
  by (auto simp: reward_user_def get_user_put_user grant_def dest: find_user_id
      split: option.splits)

lemma achievement_step_eq:
  assumes "distinct (map progress_key (progress_rows s))"
  shows "achievement_step now uid inc b s =
           Inr (reaches_threshold s uid inc b, step_store now uid inc b s)"
proof -
  have f: "filter (progress_matches uid (achievement_id b)) (progress_rows s) =
             (case progress_of s uid (achievement_id b) of None \<Rightarrow> [] | Some x \<Rightarrow> [x])"
    unfolding progress_of_key progress_matches_key_fun using assms by (rule filter_unique_key)
  show ?thesis
    unfolding achievement_step_def f
    by (auto simp: scalar_one_or_none_def step_store_def reaches_threshold_def is_completed_def
        counter_value_def reward_user_def Let_def split: option.splits)
qed


lemma progress_of_Some_key:
  "progress_of s uid aid = Some r \<Longrightarrow> progress_key r = (uid, aid)"
  by (auto simp: progress_of_key find_Some_iff)

lemma progress_of_None_key:
  "progress_of s uid aid = None \<Longrightarrow> (uid, aid) \<notin> set (map progress_key (progress_rows s))"
  by (auto simp: progress_of_key find_None_iff)

lemma progress_of_put_progress:
  "progress_of (put_progress s r) uid aid =
     (if progress_key r = (uid, aid) then map_option (\<lambda>_. r) (progress_of s uid aid)
      else progress_of s uid aid)"
  unfolding progress_of_key put_progress_rows
  by (simp add: find_key_map_update [where key = progress_key])

lemma distinct_put_progress:
  "distinct (map progress_key (progress_rows s))
     \<Longrightarrow> distinct (map progress_key (progress_rows (put_progress s r)))"
  unfolding put_progress_rows by (simp only: map_key_update_ids)

lemma progress_of_append:
  "progress_of (s\<lparr>progress_rows := progress_rows s @ [r]\<rparr>) uid aid =
     (case progress_of s uid aid of
        None \<Rightarrow> if progress_key r = (uid, aid) then Some r else None
      | Some x \<Rightarrow> Some x)"
  by (auto simp: progress_of_key find_append_key split: option.splits)

lemma progress_of_reward_user [simp]:
  "progress_of (reward_user s uid a) u' a' = progress_of s u' a'"
  by (simp add: progress_of_def)

lemma step_store_distinct:
  assumes "distinct (map progress_key (progress_rows s))"
  shows "distinct (map progress_key (progress_rows (step_store now uid inc b s)))"
proof (cases "progress_of s uid (achievement_id b)")
  case None
  let ?r = "\<lparr>progress_user_id = uid, progress_achievement_id = achievement_id b,
             current_value = 0, completed = False, completed_at = None\<rparr>"
  have "progress_key ?r \<notin> set (map progress_key (progress_rows s))"
    using progress_of_None_key [OF None] by (simp add: progress_key_def)
  then have "distinct (map progress_key (progress_rows (s\<lparr>progress_rows := progress_rows s @ [?r]\<rparr>)))"
    using assms by simp
  then show ?thesis
    using None by (auto simp: step_store_def Let_def intro: distinct_put_progress)
next
  case (Some r)
  then show ?thesis
    using assms by (auto simp: step_store_def Let_def intro: distinct_put_progress)
qed

lemma step_store_achievements [simp]:
  "achievements (step_store now uid inc b s) = achievements s"
  by (auto simp: step_store_def Let_def split: option.splits)

lemma step_store_other_progress:
  assumes "(u', a') \<noteq> (uid, achievement_id b)"
  shows "progress_of (step_store now uid inc b s) u' a' = progress_of s u' a'"
proof (cases "progress_of s uid (achievement_id b)")
  case None
  then show ?thesis
    using assms
    by (auto simp: step_store_def Let_def progress_of_put_progress progress_of_append
        progress_key_def split: option.splits)
next
  case (Some r)
  then show ?thesis
    using assms progress_of_Some_key [OF Some]
    by (auto simp: step_store_def Let_def progress_of_put_progress progress_key_def)
qed

lemma step_store_completed_same:
  "is_completed s uid (achievement_id b) \<Longrightarrow> step_store now uid inc b s = s"
  by (auto simp: step_store_def is_completed_def Let_def split: option.splits)

lemma step_store_is_completed:
  "is_completed (step_store now uid inc b s) uid (achievement_id b) \<longleftrightarrow>
     is_completed s uid (achievement_id b) \<or> reaches_threshold s uid inc b"
proof (cases "progress_of s uid (achievement_id b)")
  case None
  then show ?thesis
    by (auto simp: step_store_def Let_def progress_of_put_progress progress_of_append
        progress_key_def is_completed_def reaches_threshold_def counter_value_def)
next
  case (Some r)
  then show ?thesis
    using progress_of_Some_key [OF Some]
    by (auto simp: step_store_def Let_def progress_of_put_progress progress_key_def
        is_completed_def reaches_threshold_def counter_value_def)
qed

lemma get_user_put_progress [simp]: "get_user (put_progress s r) v = get_user s v"
  by (simp add: get_user_def)

lemma get_user_append_progress [simp]:
  "get_user (s\<lparr>progress_rows := rows\<rparr>) v = get_user s v"
  by (simp add: get_user_def)

lemma step_store_get_user:
  "get_user (step_store now uid inc b s) v =
     (if reaches_threshold s uid inc b \<and> v = uid then map_option (grant [b]) (get_user s uid)
      else get_user s v)"
  by (auto simp: step_store_def Let_def get_user_reward_user reaches_threshold_def
      is_completed_def counter_value_def split: option.splits)


lemma reaches_threshold_cong:
  "progress_of s1 uid (achievement_id c) = progress_of s uid (achievement_id c)
     \<Longrightarrow> reaches_threshold s1 uid inc c = reaches_threshold s uid inc c"
  by (simp add: reaches_threshold_def is_completed_def counter_value_def)

lemma is_completed_cong:
  "progress_of s1 uid aid = progress_of s uid aid
     \<Longrightarrow> is_completed s1 uid aid = is_completed s uid aid"
  by (simp add: is_completed_def)

lemma grant_grant: "grant xs (grant ys u) = grant (ys @ xs) u"
  by (simp add: grant_def)

lemma grant_Nil: "grant [] u = u"
  by (simp add: grant_def)

lemma map_option_id_grant: "map_option (grant []) x = x"
  by (cases x) (simp_all add: grant_Nil)

lemma achievements_loop_eq:
  assumes "distinct (map progress_key (progress_rows s))"
      and "distinct (map achievement_id achs)"
  shows "\<exists>s'. achievements_loop now uid inc achs s newly =
                 Inr (newly @ filter (reaches_threshold s uid inc) achs, s')
              \<and> loop_post uid inc achs s s'"
  using assms
proof (induction achs arbitrary: s newly)
  case Nil
  then show ?case by (simp add: loop_post_def map_option_id_grant)
next
  case (Cons b rest)
  let ?s1 = "step_store now uid inc b s"
  let ?hit = "reaches_threshold s uid inc b"
  let ?n1 = "if ?hit then newly @ [b] else newly"
  have step: "achievement_step now uid inc b s = Inr (?hit, ?s1)"
    using Cons.prems(1) by (rule achievement_step_eq)
  have d1: "distinct (map progress_key (progress_rows ?s1))"
    using Cons.prems(1) by (rule step_store_distinct)
  have dr: "distinct (map achievement_id rest)" and nb: "achievement_id b \<notin> achievement_id ` set rest"
    using Cons.prems(2) by simp_all
  from Cons.IH [OF d1 dr, of ?n1] obtain s' where
    run: "achievements_loop now uid inc rest ?s1 ?n1 =
            Inr (?n1 @ filter (reaches_threshold ?s1 uid inc) rest, s')"
    and post: "loop_post uid inc rest ?s1 s'"
    by blast
  have other: "\<And>u' a'. (u', a') \<noteq> (uid, achievement_id b) \<Longrightarrow>
                 progress_of ?s1 u' a' = progress_of s u' a'"
    by (rule step_store_other_progress)
  have same_rest: "progress_of ?s1 uid (achievement_id c) = progress_of s uid (achievement_id c)"
    if "c \<in> set rest" for c
  proof -
    have "achievement_id c \<noteq> achievement_id b"
      using nb that by (metis imageI)
    then have "(uid, achievement_id c) \<noteq> (uid, achievement_id b)" by simp
    then show ?thesis by (rule other)
  qed
  have flt: "filter (reaches_threshold ?s1 uid inc) rest = filter (reaches_threshold s uid inc) rest"
    by (rule filter_cong [OF refl]) (rule reaches_threshold_cong, rule same_rest)
  have res: "achievements_loop now uid inc (b # rest) s newly =
               Inr (newly @ filter (reaches_threshold s uid inc) (b # rest), s')"
    using step run flt by simp
  note P = post [unfolded loop_post_def]
  note p1 = P [THEN conjunct1]
  note p2 = P [THEN conjunct2, THEN conjunct1]
  note p3 = P [THEN conjunct2, THEN conjunct2, THEN conjunct1, rule_format]
  note p4 = P [THEN conjunct2, THEN conjunct2, THEN conjunct2, THEN conjunct1, rule_format]
  note p5 = P [THEN conjunct2, THEN conjunct2, THEN conjunct2, THEN conjunct2, THEN conjunct1,
               rule_format]
  note p6 = P [THEN conjunct2, THEN conjunct2, THEN conjunct2, THEN conjunct2, THEN conjunct2,
               rule_format]
  have q2: "achievements s' = achievements s" using p2 by simp
  have q3: "\<forall>u' a'. u' \<noteq> uid \<or> a' \<notin> achievement_id ` set (b # rest) \<longrightarrow>
              progress_of s' u' a' = progress_of s u' a'"
  proof (intro allI impI)
    fix u' a' assume h: "u' \<noteq> uid \<or> a' \<notin> achievement_id ` set (b # rest)"
    then have "u' \<noteq> uid \<or> a' \<notin> achievement_id ` set rest" by auto
    then have "progress_of s' u' a' = progress_of ?s1 u' a'" by (rule p3)
    also have "\<dots> = progress_of s u' a'" using h by (intro other) auto
    finally show "progress_of s' u' a' = progress_of s u' a'" .
  qed
  have q4: "\<forall>a'. is_completed s uid a' \<longrightarrow> progress_of s' uid a' = progress_of s uid a'"
  proof (intro allI impI)
    fix a' assume c: "is_completed s uid a'"
    show "progress_of s' uid a' = progress_of s uid a'"
    proof (cases "a' = achievement_id b")
      case True
      then have "?s1 = s" using c by (simp add: step_store_completed_same)
      then show ?thesis using p4 [of a'] c by simp
    next
      case False
      then have e: "progress_of ?s1 uid a' = progress_of s uid a'" by (intro other) simp
      then have "is_completed ?s1 uid a'" using c is_completed_cong [OF e] by simp
      then show ?thesis using p4 [of a'] e by simp
    qed
  qed
  have q5: "\<forall>c \<in> set (b # rest). is_completed s' uid (achievement_id c) \<longleftrightarrow>
              is_completed s uid (achievement_id c) \<or> reaches_threshold s uid inc c"
  proof
    fix c assume "c \<in> set (b # rest)"
    then consider "c = b" | "c \<in> set rest" by auto
    then show "is_completed s' uid (achievement_id c) \<longleftrightarrow>
              is_completed s uid (achievement_id c) \<or> reaches_threshold s uid inc c"
    proof cases
      case 1
      have "uid \<noteq> uid \<or> achievement_id b \<notin> achievement_id ` set rest"
        using nb by simp
      then have "progress_of s' uid (achievement_id b) = progress_of ?s1 uid (achievement_id b)"
        by (rule p3)
      then have "is_completed s' uid (achievement_id b) = is_completed ?s1 uid (achievement_id b)"
        by (rule is_completed_cong)
      then show ?thesis using 1 by (simp add: step_store_is_completed)
    next
      case 2
      then show ?thesis
        using p5 [OF 2] is_completed_cong [OF same_rest [OF 2]]
          reaches_threshold_cong [OF same_rest [OF 2], of inc]
        by simp
    qed
  qed
  have q6: "\<forall>v. get_user s' v =
            (if v = uid
             then map_option (grant (filter (reaches_threshold s uid inc) (b # rest))) (get_user s uid)
             else get_user s v)"
  proof
    fix v
    show "get_user s' v =
            (if v = uid
             then map_option (grant (filter (reaches_threshold s uid inc) (b # rest))) (get_user s uid)
             else get_user s v)"
    proof (cases "v = uid")
      case False
      then show ?thesis by (simp add: p6 step_store_get_user)
    next
      case True
      have "get_user s' uid =
              map_option (grant (filter (reaches_threshold s uid inc) rest)) (get_user ?s1 uid)"
        using p6 [of uid] flt by simp
      also have "get_user ?s1 uid =
              (if ?hit then map_option (grant [b]) (get_user s uid) else get_user s uid)"
        by (simp add: step_store_get_user)
      finally show ?thesis
        using True by (cases "get_user s uid") (simp_all add: grant_grant)
    qed
  qed
  have "loop_post uid inc (b # rest) s s'"
    unfolding loop_post_def by (intro conjI) (fact p1 q2 q3 q4 q5 q6)+
  with res show ?case by blast
qed


lemma distinct_key_member:
  assumes "distinct (map key xs)" and "x \<in> set xs" and "y \<in> set xs" and "key x = key y"
  shows "x = y"
  using assms by (auto simp: distinct_map inj_on_def)

lemma check_and_update_spec:
  assumes keys: "distinct (map progress_key (progress_rows s))"
      and ids: "distinct (map achievement_id (achievements s))"
      and a: "a \<in> set (achievements s)"
      and u: "get_user s uid = Some u"
  shows "\<exists>newly s'. check_and_update_achievements s now uid ty inc = (Inr newly, s')
      \<and> newly = filter (\<lambda>b. requirement_type b = ty \<and> reaches_threshold s uid inc b)
                        (achievements s)
      \<and> (is_completed s uid (achievement_id a) \<longrightarrow>
            progress_of s' uid (achievement_id a) = progress_of s uid (achievement_id a))
      \<and> (is_completed s' uid (achievement_id a) \<longleftrightarrow>
            is_completed s uid (achievement_id a) \<or> a \<in> set newly)
      \<and> get_user s' uid = Some (grant newly u)
      \<and> distinct (map progress_key (progress_rows s'))
      \<and> achievements s' = achievements s"
proof -
  let ?achs = "filter (\<lambda>b. requirement_type b = ty) (achievements s)"
  let ?newly = "filter (reaches_threshold s uid inc) ?achs"
  have da: "distinct (map achievement_id ?achs)"
    using ids by (rule distinct_map_filter)
  from achievements_loop_eq [OF keys da, of now uid inc "[]"] obtain s' where
    run: "achievements_loop now uid inc ?achs s [] = Inr (?newly, s')"
    and post: "loop_post uid inc ?achs s s'"
    by auto
  note P = post [unfolded loop_post_def]
  note p1 = P [THEN conjunct1]
  note p2 = P [THEN conjunct2, THEN conjunct1]
  note p3 = P [THEN conjunct2, THEN conjunct2, THEN conjunct1, rule_format]
  note p4 = P [THEN conjunct2, THEN conjunct2, THEN conjunct2, THEN conjunct1, rule_format]
  note p5 = P [THEN conjunct2, THEN conjunct2, THEN conjunct2, THEN conjunct2, THEN conjunct1,
               rule_format]
  note p6 = P [THEN conjunct2, THEN conjunct2, THEN conjunct2, THEN conjunct2, THEN conjunct2,
               rule_format]
  have res: "check_and_update_achievements s now uid ty inc = (Inr ?newly, s')"
    using run by (simp add: check_and_update_achievements_def Let_def)
  have n: "?newly = filter (\<lambda>b. requirement_type b = ty \<and> reaches_threshold s uid inc b)
                        (achievements s)"
    by (simp add: conj_commute)
  have c: "is_completed s' uid (achievement_id a) \<longleftrightarrow>
            is_completed s uid (achievement_id a) \<or> a \<in> set ?newly"
  proof (cases "requirement_type a = ty")
    case True
    then have "a \<in> set ?achs" using a by simp
    from p5 [OF this] show ?thesis using True a by auto
  next
    case False
    have "achievement_id a \<notin> achievement_id ` set ?achs"
    proof
      assume "achievement_id a \<in> achievement_id ` set ?achs"
      then obtain b where b: "b \<in> set ?achs" "achievement_id a = achievement_id b" by auto
      then have "b \<in> set (achievements s)" by simp
      then have "a = b" using distinct_key_member [OF ids a] b(2) by blast
      then show False using b(1) False by simp
    qed
    then have "uid \<noteq> uid \<or> achievement_id a \<notin> achievement_id ` set ?achs" by simp
    then have "progress_of s' uid (achievement_id a) = progress_of s uid (achievement_id a)"
      by (rule p3)
    then have "is_completed s' uid (achievement_id a) = is_completed s uid (achievement_id a)"
      by (rule is_completed_cong)
    then show ?thesis using False by simp
  qed
  have g: "get_user s' uid = Some (grant ?newly u)"
    using p6 [of uid] u by simp
  have f: "is_completed s uid (achievement_id a) \<longrightarrow>
            progress_of s' uid (achievement_id a) = progress_of s uid (achievement_id a)"
    using p4 by blast
  show ?thesis
    using res n f c g p1 p2 by (metis (no_types, lifting))
qed

lemma history_once:
  assumes "distinct (map progress_key (progress_rows s))"
      and "distinct (map achievement_id (achievements s))"
      and "a \<in> set (achievements s)"
      and "get_user s uid = Some u"
  shows "length (filter (\<lambda>n. a \<in> set n) (fst (record_progress_history s uid calls))) \<le> 1
       \<and> (is_completed s uid (achievement_id a) \<longrightarrow>
            filter (\<lambda>n. a \<in> set n) (fst (record_progress_history s uid calls)) = [])"
  using assms
proof (induction calls arbitrary: s u)
  case Nil
  then show ?case by simp
next
  case (Cons c calls)
  obtain now ty inc where c: "c = (now, ty, inc)" by (cases c) auto
  from check_and_update_spec [OF Cons.prems, of now ty inc] obtain newly s' where
    res: "check_and_update_achievements s now uid ty inc = (Inr newly, s')"
    and n: "newly = filter (\<lambda>b. requirement_type b = ty \<and> reaches_threshold s uid inc b)
                        (achievements s)"
    and cpl: "is_completed s' uid (achievement_id a) \<longleftrightarrow>
            is_completed s uid (achievement_id a) \<or> a \<in> set newly"
    and g: "get_user s' uid = Some (grant newly u)"
    and k': "distinct (map progress_key (progress_rows s'))"
    and a': "achievements s' = achievements s"
    by blast
  have ids': "distinct (map achievement_id (achievements s'))" using Cons.prems(2) a' by simp
  have am': "a \<in> set (achievements s')" using Cons.prems(3) a' by simp
  note IH = Cons.IH [OF k' ids' am' g]
  let ?outs = "fst (record_progress_history s' uid calls)"
  have outs: "fst (record_progress_history s uid (c # calls)) = newly # ?outs"
    using res c by (simp split: prod.splits)
  have notdone: "a \<in> set newly \<Longrightarrow> \<not> is_completed s uid (achievement_id a)"
    using n by (simp add: reaches_threshold_def)
  show ?case
  proof (cases "a \<in> set newly")
    case True
    then have "is_completed s' uid (achievement_id a)" using cpl by simp
    then have "filter (\<lambda>n. a \<in> set n) ?outs = []" using IH by blast
    then show ?thesis unfolding outs using True notdone by simp
  next
    case False
    then show ?thesis unfolding outs using IH cpl by simp
  qed
qed

text \<open>
  Claim C5. On a store with unique progress keys and unique achievement ids, for an existing
  user and any achievement definition \<open>a\<close>, a \<^verbatim>\<open>check_and_update_achievements\<close> call returns
  without error, and its newly-completed list is exactly the definitions of the metric key
  whose record was not completed and whose counter reaches the threshold in this call. If the
  record of \<open>a\<close> is completed before the call, \<open>a\<close> is not in the list and its record
  (counter, flag, timestamp) is unchanged. The record is completed after the call exactly if
  it was before or \<open>a\<close> is in the list. The user's coins and stars grow by exactly the
  rewards of the listed definitions. Over any sequence of calls for the user, \<open>a\<close> is in
  the newly-completed list of at most one call.
\<close>

theorem achievement_rewarded_once:
  assumes "distinct (map progress_key (progress_rows s))"
      and "distinct (map achievement_id (achievements s))"
      and "a \<in> set (achievements s)"
      and "get_user s uid = Some u"
  shows "\<exists>newly s'. check_and_update_achievements s now uid ty inc = (Inr newly, s')
      \<and> newly = filter (\<lambda>b. requirement_type b = ty \<and> reaches_threshold s uid inc b)
                        (achievements s)
      \<and> (is_completed s uid (achievement_id a) \<longrightarrow>
            a \<notin> set newly
            \<and> progress_of s' uid (achievement_id a) = progress_of s uid (achievement_id a))
      \<and> (is_completed s' uid (achievement_id a) \<longleftrightarrow>
            is_completed s uid (achievement_id a) \<or> a \<in> set newly)
      \<and> get_user s' uid = Some (grant newly u)
      \<and> length (filter (\<lambda>n. a \<in> set n) (fst (record_progress_history s uid calls))) \<le> 1"
proof -
  from check_and_update_spec [OF assms, of now ty inc] obtain newly s' where
    res: "check_and_update_achievements s now uid ty inc = (Inr newly, s')"
    and n: "newly = filter (\<lambda>b. requirement_type b = ty \<and> reaches_threshold s uid inc b)
                        (achievements s)"
    and f: "is_completed s uid (achievement_id a) \<longrightarrow>
            progress_of s' uid (achievement_id a) = progress_of s uid (achievement_id a)"
    and cpl: "is_completed s' uid (achievement_id a) \<longleftrightarrow>
            is_completed s uid (achievement_id a) \<or> a \<in> set newly"
    and g: "get_user s' uid = Some (grant newly u)"
    by blast
  have nd: "is_completed s uid (achievement_id a) \<longrightarrow> a \<notin> set newly"
    using n by (simp add: reaches_threshold_def)
  have h: "length (filter (\<lambda>n. a \<in> set n) (fst (record_progress_history s uid calls))) \<le> 1"
    using history_once [OF assms] by blast
  show ?thesis
    using res n f cpl g nd h by (metis (no_types, lifting))
qed

lemmas achievement_defs = check_and_update_achievements_def achievement_step_def
  scalar_one_or_none_def progress_matches_def put_progress_def get_user_def put_user_def
  achievement_store_def example_achievement_def

text \<open>
  User 1 has counted one of the two missions the first definition asks for. The next call
  with increment 1 completes it and pays 100 coins and 1 star; of three further calls the
  first returns definition 1, the second nothing, the third definition 2.
\<close>

theorem achievement_rewarded_once_witness:
  "distinct (map progress_key (progress_rows achievement_store))
   \<and> distinct (map achievement_id (achievements achievement_store))
   \<and> example_achievement 1 ''missions_completed'' 2 100 \<in> set (achievements achievement_store)
   \<and> get_user achievement_store 1 = Some (example_user 1)
   \<and> fst (check_and_update_achievements achievement_store 10 1 ''missions_completed'' 1)
       = Inr [example_achievement 1 ''missions_completed'' 2 100]
   \<and> get_user (snd (check_and_update_achievements achievement_store 10 1 ''missions_completed'' 1)) 1
       = Some ((example_user 1)\<lparr>coins := 1100, stars := 1\<rparr>)
   \<and> fst (record_progress_history achievement_store 1
            [(10, ''missions_completed'', 1), (20, ''missions_completed'', 1),
             (30, ''missions_completed'', 5)])
       = [[example_achievement 1 ''missions_completed'' 2 100], [],
          [example_achievement 2 ''missions_completed'' 5 500]]"
proof -
  have h1: "distinct (map progress_key (progress_rows achievement_store))"
    by (simp add: achievement_store_def progress_key_def)
  have h2: "distinct (map achievement_id (achievements achievement_store))"
    by (simp add: achievement_store_def example_achievement_def)
  have h3: "example_achievement 1 ''missions_completed'' 2 100 \<in> set (achievements achievement_store)"
    by (simp add: achievement_store_def)
  have h4: "get_user achievement_store 1 = Some (example_user 1)"
    by (simp add: achievement_store_def get_user_def example_defs)
  have r: "reaches_threshold achievement_store 1 1 (example_achievement 1 ''missions_completed'' 2 100)"
      "\<not> reaches_threshold achievement_store 1 1 (example_achievement 2 ''missions_completed'' 5 500)"
    by (simp_all add: reaches_threshold_def is_completed_def counter_value_def progress_of_def
        progress_matches_def achievement_store_def example_achievement_def)
  from achievement_rewarded_once [OF h1 h2 h3 h4, of 10 "''missions_completed''" 1 "[]"]
  obtain newly s' where
    res: "check_and_update_achievements achievement_store 10 1 ''missions_completed'' 1 = (Inr newly, s')"
    and n: "newly = filter (\<lambda>b. requirement_type b = ''missions_completed''
                              \<and> reaches_threshold achievement_store 1 1 b)
                        (achievements achievement_store)"
    and g: "get_user s' 1 = Some (grant newly (example_user 1))"
    by blast
  have n': "newly = [example_achievement 1 ''missions_completed'' 2 100]"
    unfolding n using r by (simp add: achievement_store_def example_achievement_def)
  have c1: "fst (check_and_update_achievements achievement_store 10 1 ''missions_completed'' 1)
       = Inr [example_achievement 1 ''missions_completed'' 2 100]"
    using res n' by simp
  have c2: "get_user (snd (check_and_update_achievements achievement_store 10 1 ''missions_completed'' 1)) 1
       = Some ((example_user 1)\<lparr>coins := 1100, stars := 1\<rparr>)"
    using res g unfolding n' by (simp add: grant_def example_achievement_def example_user_def)
  have c3: "fst (record_progress_history achievement_store 1
            [(10, ''missions_completed'', 1), (20, ''missions_completed'', 1),
             (30, ''missions_completed'', 5)])
       = [[example_achievement 1 ''missions_completed'' 2 100], [],
          [example_achievement 2 ''missions_completed'' 5 500]]"
    by (simp add: achievement_defs example_defs Let_def)
  show ?thesis using h1 h2 h3 h4 c1 c2 c3 by blast
qed

end
